theory Spec2Isabelle
  imports Complex_Main "HOL-Library.Sublist"
begin

section \<open>Python text\<close>

text \<open>
  A Python \<^verbatim>\<open>str\<close> is a sequence of Unicode code points, so it is modelled as a list of
  natural numbers (an Isabelle \<^typ>\<open>char\<close> has only eight bits and could not hold what
  \<^verbatim>\<open>urllib.parse.unquote\<close> produces from \<^verbatim>\<open>%E2%82%AC\<close>). \<open>str\<close> turns an ASCII literal
  into that representation. Python's \<^verbatim>\<open>p in s\<close> on strings is \<^const>\<open>sublist\<close>,
  \<^verbatim>\<open>s.startswith(p)\<close> is \<^const>\<open>prefix\<close> and \<^verbatim>\<open>s.endswith(p)\<close> is \<^const>\<open>suffix\<close>.
\<close>

type_synonym pystr = "nat list"

definition str :: "string \<Rightarrow> pystr" where
  "str s = map of_char s"

section \<open>Percent-decoding: \<^verbatim>\<open>urllib.parse.unquote(s, errors="strict")\<close>\<close>

text \<open>
  \<^verbatim>\<open>validate_filename\<close> calls the standard library's \<^verbatim>\<open>unquote\<close> with the default
  encoding UTF-8 and \<^verbatim>\<open>errors="strict"\<close>. The library function
  \<^item> returns its argument unchanged when it holds no \<^verbatim>\<open>%\<close> (code point 37);
  \<^item> otherwise cuts the text into maximal runs of ASCII code points (the regular
    expression \<^verbatim>\<open>[\x00-\x7f]+\<close>) and the stretches between them, keeps the stretches,
    and replaces each run by \<^verbatim>\<open>unquote_to_bytes(run).decode("utf-8", "strict")\<close>;
  \<^item> \<^verbatim>\<open>unquote_to_bytes\<close> turns every \<^verbatim>\<open>%\<close> that is followed by two hexadecimal digits
    into the byte they denote and leaves every other \<^verbatim>\<open>%\<close> in place;
  \<^item> the strict decoder raises \<^verbatim>\<open>UnicodeDecodeError\<close> on a byte sequence that is not
    well-formed UTF-8 (a stray continuation byte, a truncated or overlong form, a
    surrogate, a value above U+10FFFF); the raise is the value \<open>None\<close> here.
\<close>

definition is_hexdig :: "nat \<Rightarrow> bool" where
  "is_hexdig c = ((48 \<le> c \<and> c \<le> 57) \<or> (65 \<le> c \<and> c \<le> 70) \<or> (97 \<le> c \<and> c \<le> 102))"

definition hexval :: "nat \<Rightarrow> nat" where
  "hexval c = (if c \<le> 57 then c - 48 else if c \<le> 70 then c - 55 else c - 87)"

fun unquote_to_bytes :: "nat list \<Rightarrow> nat list" where
  "unquote_to_bytes [] = []"
| "unquote_to_bytes (c # cs) =
     (if c = 37 then
        (case cs of
           h1 # h2 # rest \<Rightarrow>
             if is_hexdig h1 \<and> is_hexdig h2
             then (16 * hexval h1 + hexval h2) # unquote_to_bytes rest
             else 37 # unquote_to_bytes cs
         | _ \<Rightarrow> 37 # unquote_to_bytes cs)
      else c # unquote_to_bytes cs)"

definition is_cont :: "nat \<Rightarrow> bool" where
  "is_cont b = (128 \<le> b \<and> b \<le> 191)"

definition second_ok3 :: "nat \<Rightarrow> nat \<Rightarrow> bool" where
  "second_ok3 b c = (if b = 224 then 160 \<le> c \<and> c \<le> 191
                     else if b = 237 then 128 \<le> c \<and> c \<le> 159
                     else is_cont c)"

definition second_ok4 :: "nat \<Rightarrow> nat \<Rightarrow> bool" where
  "second_ok4 b c = (if b = 240 then 144 \<le> c \<and> c \<le> 191
                     else if b = 244 then 128 \<le> c \<and> c \<le> 143
                     else is_cont c)"

definition utf8_next :: "nat \<Rightarrow> nat list \<Rightarrow> (nat \<times> nat list) option" where
  "utf8_next b bs =
     (if b < 128 then Some (b, bs)
      else if 194 \<le> b \<and> b \<le> 223 then
        (case bs of
           c1 # r \<Rightarrow>
             if is_cont c1 then Some ((b - 192) * 64 + (c1 - 128), r) else None
         | _ \<Rightarrow> None)
      else if 224 \<le> b \<and> b \<le> 239 then
        (case bs of
           c1 # c2 # r \<Rightarrow>
             if second_ok3 b c1 \<and> is_cont c2
             then Some ((b - 224) * 4096 + (c1 - 128) * 64 + (c2 - 128), r)
             else None
         | _ \<Rightarrow> None)
      else if 240 \<le> b \<and> b \<le> 244 then
        (case bs of
           c1 # c2 # c3 # r \<Rightarrow>
             if second_ok4 b c1 \<and> is_cont c2 \<and> is_cont c3
             then Some ((b - 240) * 262144 + (c1 - 128) * 4096 + (c2 - 128) * 64 + (c3 - 128), r)
             else None
         | _ \<Rightarrow> None)
      else None)"

function utf8_decode :: "nat list \<Rightarrow> pystr option" where
  "utf8_decode [] = Some []"
| "utf8_decode (b # bs) =
     (case utf8_next b bs of
        None \<Rightarrow> None
      | Some (cp, r) \<Rightarrow> map_option ((#) cp) (utf8_decode r))"
  by pat_completeness auto
termination
  by (relation "measure length")
    (auto simp: utf8_next_def split: if_splits list.splits)

function unquote_parts :: "pystr \<Rightarrow> pystr option" where
  "unquote_parts [] = Some []"
| "unquote_parts (c # cs) =
     (if c < 128 then
        (case utf8_decode (unquote_to_bytes (c # takeWhile (\<lambda>x. x < 128) cs)) of
           None \<Rightarrow> None
         | Some d \<Rightarrow> map_option ((@) d) (unquote_parts (dropWhile (\<lambda>x. x < 128) cs)))
      else map_option ((#) c) (unquote_parts cs))"
  by pat_completeness auto
termination
  apply (relation "measure length")
    apply simp
   apply (simp add: le_imp_less_Suc length_dropWhile_le)
  apply simp
  done

definition unquote :: "pystr \<Rightarrow> pystr option" where
  "unquote s = (if 37 \<notin> set s then Some s else unquote_parts s)"

section \<open>\<^verbatim>\<open>validate_filename\<close>\<close>

text \<open>
  The loop \<^verbatim>\<open>for _ in range(3): decoded = unquote(decoded)\<close>; an exception in any pass
  leaves the function with \<^verbatim>\<open>False\<close>, which is \<open>None\<close> here.
\<close>

fun decode_passes :: "nat \<Rightarrow> pystr \<Rightarrow> pystr option" where
  "decode_passes 0 decoded = Some decoded"
| "decode_passes (Suc n) decoded =
     (case unquote decoded of None \<Rightarrow> None | Some d \<Rightarrow> decode_passes n d)"

text \<open>
  The list \<^verbatim>\<open>dangerous_patterns\<close>, in the source's order. The backslash is code point 92,
  NUL is 0, line feed 10 and carriage return 13.
\<close>

definition dangerous_patterns :: "pystr list" where
  "dangerous_patterns =
     [str ''..'', str ''..'' @ [92], str ''../'', [92], str ''/'', [0], [10], [13],
      str ''~'', str '':'', str ''|'', str ''<'', str ''>'', str ''*'', str ''?'',
      str ''$'', str '';'', str ''&'']"

text \<open>
  The character class \<^verbatim>\<open>[a-zA-Z0-9_\-]\<close> and the match
  \<^verbatim>\<open>re.match(r"^[a-zA-Z0-9_\-]+\.json$", decoded)\<close>. The class does not contain the
  dot, so the greedy \<^verbatim>\<open>+\<close> can only stop at the end of the longest run of class members;
  \<^verbatim>\<open>$\<close> matches at the end of the text and also just before a line feed that ends it.
\<close>

definition safe_char :: "nat \<Rightarrow> bool" where
  "safe_char c =
     ((97 \<le> c \<and> c \<le> 122) \<or> (65 \<le> c \<and> c \<le> 90) \<or> (48 \<le> c \<and> c \<le> 57) \<or> c = 95 \<or> c = 45)"

definition re_match_json :: "pystr \<Rightarrow> bool" where
  "re_match_json s =
     (let body = takeWhile safe_char s; rest = dropWhile safe_char s
      in body \<noteq> [] \<and> (rest = str ''.json'' \<or> rest = str ''.json'' @ [10]))"

definition validate_filename :: "pystr \<Rightarrow> bool" where
  "validate_filename filename =
     (case decode_passes 3 filename of
        None \<Rightarrow> False
      | Some decoded \<Rightarrow>
          if list_ex (\<lambda>pattern. sublist pattern decoded) dangerous_patterns then False
          else if prefix (str ''/'') decoded \<or> prefix [92] decoded then False
          else if 2 \<le> length decoded \<and> decoded ! 1 = 58 then False
          else if \<not> re_match_json decoded then False
          else if \<not> suffix (str ''.json'') decoded then False
          else True)"

text \<open>
  Two sets of code points that the proofs below speak about. A \<^emph>\<open>plain\<close> code point is
  an ASCII one that percent-decoding cannot consume: neither \<^verbatim>\<open>%\<close> nor a hexadecimal
  digit. \<open>bad_chars\<close> collects the code points named in \<^verbatim>\<open>dangerous_patterns\<close> other
  than the dot. \<open>filename_alphabet\<close> spells out the specification's character class
  \<^verbatim>\<open>[A-Za-z0-9_-]\<close>, independently of the regular expression's model above.
\<close>

definition plain_char :: "nat \<Rightarrow> bool" where
  "plain_char c = (c < 128 \<and> c \<noteq> 37 \<and> \<not> is_hexdig c)"

definition bad_chars :: "nat set" where
  "bad_chars = {92, 47, 0, 10, 13, 126, 58, 124, 60, 62, 42, 63, 36, 59, 38}"

definition filename_alphabet :: pystr where
  "filename_alphabet = str ''abcdefghijklmnopqrstuvwxyzABCDEFGHIJKLMNOPQRSTUVWXYZ0123456789_-''"

section \<open>\<^verbatim>\<open>check_rate_limit\<close>\<close>

text \<open>
  \<^verbatim>\<open>rate_limit_storage\<close> is a \<^verbatim>\<open>defaultdict(list)\<close>: every key has a record, the empty
  list until something is stored, so the dictionary is a total function. The clock
  \<^verbatim>\<open>time.time()\<close> is read once per call and is the argument \<open>current_time\<close>; seconds are
  real numbers. The module constant \<^verbatim>\<open>MAX_REQUESTS_PER_MINUTE\<close> ("configure as needed")
  is the argument \<open>max_requests\<close>; the window of 60 seconds is written into the function's
  body, as in the source. The function returns its answer and the updated dictionary.
\<close>

type_synonym rate_limit_storage = "pystr \<Rightarrow> real list"

definition MAX_REQUESTS_PER_MINUTE :: nat where
  "MAX_REQUESTS_PER_MINUTE = 60"

definition check_rate_limit ::
  "nat \<Rightarrow> real \<Rightarrow> pystr \<Rightarrow> rate_limit_storage \<Rightarrow> bool \<times> rate_limit_storage" where
  "check_rate_limit max_requests current_time client_ip storage =
     (let cleaned = storage(client_ip :=
            filter (\<lambda>timestamp. current_time - timestamp < 60) (storage client_ip))
      in if max_requests \<le> length (cleaned client_ip) then (False, cleaned)
         else (True, cleaned(client_ip := cleaned client_ip @ [current_time])))"

text \<open>A sequence of calls for one client, at the given clock readings, threading the dictionary.\<close>

fun check_rate_limit_calls ::
  "nat \<Rightarrow> pystr \<Rightarrow> real list \<Rightarrow> rate_limit_storage \<Rightarrow> bool list" where
  "check_rate_limit_calls max_requests client_ip [] storage = []"
| "check_rate_limit_calls max_requests client_ip (now # later) storage =
     (case check_rate_limit max_requests now client_ip storage of
        (ok, storage') \<Rightarrow> ok # check_rate_limit_calls max_requests client_ip later storage')"

section \<open>Looking a workflow file up under the storage root\<close>

text \<open>
  A \<^verbatim>\<open>pathlib.Path\<close> is the list of its components below the filesystem root. The
  operating system is a record of the calls the two endpoints make on it, each an arbitrary
  function, so that a statement about every \<open>filesystem\<close> covers every arrangement of
  directories, files and symbolic links:
  \<^item> \<open>cwd\<close>, the working directory against which \<^verbatim>\<open>Path("workflows")\<close> is read;
  \<^item> \<open>resolve\<close>, \<^verbatim>\<open>Path.resolve()\<close>, the canonical path with every symbolic link
    followed (\<open>None\<close> when it raises, as on a loop of links);
  \<^item> \<open>listdir\<close>, the names \<^verbatim>\<open>Path.iterdir()\<close> yields, in listing order (\<open>None\<close> when
    it raises because the directory is missing or unreadable);
  \<^item> \<open>is_dir\<close>, \<open>path_exists\<close> and \<open>is_file\<close>, which follow links and answer false
    rather than raise.
  The state of the filesystem is the same throughout one request.
\<close>

type_synonym path = "pystr list"

record filesystem =
  cwd :: path
  resolve :: "path \<Rightarrow> path option"
  listdir :: "path \<Rightarrow> pystr list option"
  is_dir :: "path \<Rightarrow> bool"
  path_exists :: "path \<Rightarrow> bool"
  is_file :: "path \<Rightarrow> bool"

text \<open>Python's \<^verbatim>\<open>s.split(sep)\<close> for a one-character separator.\<close>

fun split_on :: "nat \<Rightarrow> pystr \<Rightarrow> pystr list" where
  "split_on sep [] = [[]]"
| "split_on sep (c # cs) =
     (if c = sep then [] # split_on sep cs
      else (case split_on sep cs of [] \<Rightarrow> [[c]] | part # parts \<Rightarrow> (c # part) # parts))"

text \<open>
  \<^verbatim>\<open>subdir / filename\<close> on POSIX paths: the text is cut at \<^verbatim>\<open>/\<close>, empty components and
  \<^verbatim>\<open>.\<close> are dropped, \<^verbatim>\<open>..\<close> is kept as a component, and a text that begins with \<^verbatim>\<open>/\<close>
  replaces the left operand. \<^verbatim>\<open>p.relative_to(other)\<close> raises \<^verbatim>\<open>ValueError\<close> unless the
  components of \<open>other\<close> are an initial segment of those of \<open>p\<close>.
\<close>

definition path_parts :: "pystr \<Rightarrow> path" where
  "path_parts s = filter (\<lambda>part. part \<noteq> [] \<and> part \<noteq> str ''.'') (split_on 47 s)"

definition joinpath :: "path \<Rightarrow> pystr \<Rightarrow> path" where
  "joinpath base s = (if prefix (str ''/'') s then path_parts s else base @ path_parts s)"

definition is_relative_to :: "path \<Rightarrow> path \<Rightarrow> bool" where
  "is_relative_to p other = prefix other p"

text \<open>What an endpoint's lookup ends with: the file it goes on to open, or an HTTP error.\<close>

datatype 'a response = Returned 'a | HTTPException nat

text \<open>
  \<^verbatim>\<open>get_workflow_detail\<close>, lines 369 to 393: the loop over the subdirectories, which
  stops at the first candidate inside the root (\<^verbatim>\<open>break\<close>) and passes over a candidate
  outside it (\<^verbatim>\<open>except ValueError: ... continue\<close>), and the answer 404 when the loop ends
  with \<^verbatim>\<open>matching_file\<close> unset. Any other exception reaches the handler that answers 500.
\<close>

fun find_matching_file :: "filesystem \<Rightarrow> path \<Rightarrow> pystr \<Rightarrow> path list \<Rightarrow> path response" where
  "find_matching_file fs workflows_path filename [] = HTTPException 404"
| "find_matching_file fs workflows_path filename (subdir # rest) =
     (if is_dir fs subdir then
        (let target_file = joinpath subdir filename in
         if path_exists fs target_file \<and> is_file fs target_file then
           (case resolve fs target_file of
              None \<Rightarrow> HTTPException 500
            | Some canonical \<Rightarrow>
                if is_relative_to canonical workflows_path then Returned target_file
                else find_matching_file fs workflows_path filename rest)
         else find_matching_file fs workflows_path filename rest)
      else find_matching_file fs workflows_path filename rest)"

definition get_workflow_detail_lookup :: "filesystem \<Rightarrow> pystr \<Rightarrow> path response" where
  "get_workflow_detail_lookup fs filename =
     (case resolve fs (cwd fs @ [str ''workflows'']) of
        None \<Rightarrow> HTTPException 500
      | Some workflows_path \<Rightarrow>
          (case listdir fs workflows_path of
             None \<Rightarrow> HTTPException 500
           | Some names \<Rightarrow>
               find_matching_file fs workflows_path filename
                 (map (\<lambda>name. workflows_path @ [name]) names)))"

text \<open>
  \<^verbatim>\<open>download_workflow\<close>, lines 422 to 456: the loop collects every candidate inside the
  root in \<^verbatim>\<open>json_files\<close> (\<open>None\<close> when a call raises), an empty list answers 404, and
  the first element passes the final check or the answer is 403.
\<close>

fun collect_json_files :: "filesystem \<Rightarrow> path \<Rightarrow> pystr \<Rightarrow> path list \<Rightarrow> path list option" where
  "collect_json_files fs workflows_path filename [] = Some []"
| "collect_json_files fs workflows_path filename (subdir # rest) =
     (if is_dir fs subdir then
        (let target_file = joinpath subdir filename in
         if path_exists fs target_file \<and> is_file fs target_file then
           (case resolve fs target_file of
              None \<Rightarrow> None
            | Some canonical \<Rightarrow>
                if is_relative_to canonical workflows_path
                then map_option ((#) target_file)
                       (collect_json_files fs workflows_path filename rest)
                else collect_json_files fs workflows_path filename rest)
         else collect_json_files fs workflows_path filename rest)
      else collect_json_files fs workflows_path filename rest)"

definition download_workflow_lookup :: "filesystem \<Rightarrow> pystr \<Rightarrow> path response" where
  "download_workflow_lookup fs filename =
     (case resolve fs (cwd fs @ [str ''workflows'']) of
        None \<Rightarrow> HTTPException 500
      | Some workflows_path \<Rightarrow>
          (case listdir fs workflows_path of
             None \<Rightarrow> HTTPException 500
           | Some names \<Rightarrow>
               (case collect_json_files fs workflows_path filename
                       (map (\<lambda>name. workflows_path @ [name]) names) of
                  None \<Rightarrow> HTTPException 500
                | Some [] \<Rightarrow> HTTPException 404
                | Some (file_path # others) \<Rightarrow>
                    (case resolve fs file_path of
                       None \<Rightarrow> HTTPException 500
                     | Some canonical \<Rightarrow>
                         if is_relative_to canonical workflows_path then Returned file_path
                         else HTTPException 403))))"


text \<open>
  A storage root \<^verbatim>\<open>/srv/workflows\<close> with the subdirectories \<^verbatim>\<open>Evil\<close> and \<^verbatim>\<open>Slack\<close>, in
  that listing order. Both hold \<^verbatim>\<open>x.json\<close>; the one in \<^verbatim>\<open>Evil\<close> is a symbolic link to
  \<^verbatim>\<open>/etc/passwd\<close>. \<open>planted_only\<close> is the same root without \<^verbatim>\<open>Slack\<close>, and
  \<open>empty_root\<close> the same root with no subdirectory at all.
\<close>

definition planted_resolve :: "path \<Rightarrow> path option" where
  "planted_resolve p =
     (if p = [str ''srv'', str ''workflows'', str ''Evil'', str ''x.json'']
      then Some [str ''etc'', str ''passwd''] else Some p)"

definition planted_link :: filesystem where
  "planted_link =
     \<lparr>cwd = [str ''srv''],
      resolve = planted_resolve,
      listdir = (\<lambda>p. if p = [str ''srv'', str ''workflows''] then Some [str ''Evil'', str ''Slack'']
                      else None),
      is_dir = (\<lambda>p. p = [str ''srv'', str ''workflows'', str ''Evil''] \<or>
                     p = [str ''srv'', str ''workflows'', str ''Slack'']),
      path_exists = (\<lambda>p. p = [str ''srv'', str ''workflows'', str ''Evil'', str ''x.json''] \<or>
                          p = [str ''srv'', str ''workflows'', str ''Slack'', str ''x.json'']),
      is_file = (\<lambda>p. p = [str ''srv'', str ''workflows'', str ''Evil'', str ''x.json''] \<or>
                      p = [str ''srv'', str ''workflows'', str ''Slack'', str ''x.json''])\<rparr>"

definition planted_only :: filesystem where
  "planted_only =
     planted_link\<lparr>listdir :=
       (\<lambda>p. if p = [str ''srv'', str ''workflows''] then Some [str ''Evil''] else None)\<rparr>"

definition empty_root :: filesystem where
  "empty_root =
     planted_link\<lparr>listdir :=
       (\<lambda>p. if p = [str ''srv'', str ''workflows''] then Some [] else None)\<rparr>"


section \<open>\<^verbatim>\<open>determine_workflow_directory\<close>\<close>

text \<open>
  A node is a dictionary of which two entries are read, \<^verbatim>\<open>name\<close> and \<^verbatim>\<open>type\<close>; each
  is a text when present. \<^verbatim>\<open>node.get(key, "")\<close> is \<open>get_or\<close>.

  \<^verbatim>\<open>str.lower\<close> and \<^verbatim>\<open>str.capitalize\<close> follow the Unicode tables, which are not part of
  this program, so the functions below take them as the arguments \<open>lower\<close> and
  \<open>capitalize\<close>, and what is proved holds whatever they do. \<open>ascii_lower\<close> and
  \<open>ascii_capitalize\<close> are what they do to ASCII text and serve for the concrete inputs.
\<close>

record node =
  node_name :: "pystr option"
  node_type :: "pystr option"

definition get_or :: "pystr \<Rightarrow> pystr option \<Rightarrow> pystr" where
  "get_or fallback entry = (case entry of None \<Rightarrow> fallback | Some v \<Rightarrow> v)"

definition ascii_lower :: "pystr \<Rightarrow> pystr" where
  "ascii_lower s = map (\<lambda>c. if 65 \<le> c \<and> c \<le> 90 then c + 32 else c) s"

definition ascii_capitalize :: "pystr \<Rightarrow> pystr" where
  "ascii_capitalize s =
     (case s of [] \<Rightarrow> [] | c # cs \<Rightarrow> (if 97 \<le> c \<and> c \<le> 122 then c - 32 else c) # ascii_lower cs)"

text \<open>
  \<^verbatim>\<open>s.replace(old, new)\<close> for a non-empty \<open>old\<close> (both calls in the source pass a
  non-empty literal): every occurrence, left to right, without overlap.
\<close>

function str_replace :: "pystr \<Rightarrow> pystr \<Rightarrow> pystr \<Rightarrow> pystr" where
  "str_replace old new [] = []"
| "str_replace old new (c # cs) =
     (if old \<noteq> [] \<and> prefix old (c # cs)
      then new @ str_replace old new (drop (length old) (c # cs))
      else c # str_replace old new cs)"
  by pat_completeness auto
termination
  by (relation "measure (\<lambda>(old, new, s). length s)") auto

text \<open>The dictionary \<^verbatim>\<open>service_mappings\<close>, in the order in which it is written and iterated.\<close>

definition service_mappings :: "(pystr \<times> pystr) list" where
  "service_mappings =
     [(str ''telegram'', str ''Telegram''),
      (str ''discord'', str ''Discord''),
      (str ''slack'', str ''Slack''),
      (str ''gmail'', str ''Gmail''),
      (str ''googlesheets'', str ''Googlesheets''),
      (str ''googledrive'', str ''Googledrive''),
      (str ''webhook'', str ''Webhook''),
      (str ''http'', str ''Http''),
      (str ''schedule'', str ''Schedule''),
      (str ''cron'', str ''Cron''),
      (str ''postgres'', str ''Postgres''),
      (str ''mysql'', str ''Mysqltool''),
      (str ''mongodb'', str ''Mongodbtool''),
      (str ''airtable'', str ''Airtable''),
      (str ''github'', str ''Github''),
      (str ''gitlab'', str ''Gitlab''),
      (str ''jira'', str ''Jira''),
      (str ''openai'', str ''Openai''),
      (str ''notion'', str ''Notion''),
      (str ''shopify'', str ''Shopify''),
      (str ''stripe'', str ''Stripe''),
      (str ''twitter'', str ''Twitter''),
      (str ''linkedin'', str ''Linkedin''),
      (str ''facebook'', str ''Facebook''),
      (str ''instagram'', str ''Instagram''),
      (str ''whatsapp'', str ''Whatsapp''),
      (str ''trello'', str ''Trello''),
      (str ''asana'', str ''Asana''),
      (str ''mondaycom'', str ''Mondaycom''),
      (str ''dropbox'', str ''Dropbox''),
      (str ''onedrive'', str ''Microsoftonedrive''),
      (str ''outlook'', str ''Microsoftoutlook''),
      (str ''calendly'', str ''Calendly''),
      (str ''typeform'', str ''Typeform''),
      (str ''youtube'', str ''Youtube''),
      (str ''wordpress'', str ''Wordpress''),
      (str ''woocommerce'', str ''Woocommerce'')]"

text \<open>
  \<^verbatim>\<open>primary_service\<close> is \<^verbatim>\<open>None\<close> or a text. \<^verbatim>\<open>not primary_service\<close> holds for
  \<^verbatim>\<open>None\<close> and for the empty text; \<^verbatim>\<open>primary_service in [...]\<close> holds for a text that is
  a member of the list.
\<close>

definition not_set :: "pystr option \<Rightarrow> bool" where
  "not_set primary_service = (primary_service = None \<or> primary_service = Some [])"

definition is_one_of :: "pystr option \<Rightarrow> pystr list \<Rightarrow> bool" where
  "is_one_of primary_service labels =
     (case primary_service of None \<Rightarrow> False | Some label \<Rightarrow> label \<in> set labels)"

definition generic_labels :: "pystr list" where
  "generic_labels = [str ''Manual'', str ''Webhook'', str ''Schedule'']"

text \<open>The inner loop \<^verbatim>\<open>for key, directory in service_mappings.items()\<close> with its \<^verbatim>\<open>break\<close>.\<close>

fun scan_service_mappings ::
  "pystr \<Rightarrow> pystr \<Rightarrow> (pystr \<times> pystr) list \<Rightarrow> pystr option \<Rightarrow> pystr option" where
  "scan_service_mappings ty nm [] primary_service = primary_service"
| "scan_service_mappings ty nm ((key, directory) # rest) primary_service =
     (if sublist key ty \<or> sublist key nm then
        (if not_set primary_service \<or> is_one_of primary_service generic_labels
         then Some directory
         else scan_service_mappings ty nm rest primary_service)
      else scan_service_mappings ty nm rest primary_service)"

text \<open>
  The body of the loop over the nodes, up to the inner loop's end: the webhook test, the
  cron and schedule test (on the type alone), then the table.
\<close>

definition classify_node :: "(pystr \<Rightarrow> pystr) \<Rightarrow> node \<Rightarrow> pystr option \<Rightarrow> pystr option" where
  "classify_node lower node primary_service =
     (let ty = lower (get_or [] (node_type node));
          nm = lower (get_or [] (node_name node));
          after_webhook =
            (if (sublist (str ''webhook'') ty \<or> sublist (str ''webhook'') nm) \<and>
                (not_set primary_service \<or> primary_service = Some (str ''Manual''))
             then Some (str ''Webhook'') else primary_service);
          after_schedule =
            (if (sublist (str ''cron'') ty \<or> sublist (str ''schedule'') ty) \<and>
                (not_set after_webhook \<or> after_webhook = Some (str ''Manual''))
             then Some (str ''Schedule'') else after_webhook)
      in scan_service_mappings ty nm service_mappings after_schedule)"

text \<open>The loop over the nodes, left when \<^verbatim>\<open>primary_service\<close> holds a label that is not generic.\<close>

fun scan_nodes :: "(pystr \<Rightarrow> pystr) \<Rightarrow> node list \<Rightarrow> pystr option \<Rightarrow> pystr option" where
  "scan_nodes lower [] primary_service = primary_service"
| "scan_nodes lower (node # rest) primary_service =
     (let found = classify_node lower node primary_service
      in if \<not> not_set found \<and> \<not> is_one_of found generic_labels then found
         else scan_nodes lower rest found)"

text \<open>
  The function. \<^verbatim>\<open>split(".")[0]\<close> is the head of a list that \<open>split_on\<close> never leaves
  empty. The last branch returns \<^verbatim>\<open>primary_service\<close>, a text there.
\<close>

definition first_node_label :: "(pystr \<Rightarrow> pystr) \<Rightarrow> node list \<Rightarrow> pystr" where
  "first_node_label capitalize nodes =
     (case nodes of
        [] \<Rightarrow> str ''Manual''
      | first # others \<Rightarrow>
          (let first_node_type = get_or [] (node_type first)
           in if sublist (str ''n8n-nodes-base.'') first_node_type
              then capitalize
                     (hd (split_on 46 (str_replace (str ''n8n-nodes-base.'') [] first_node_type)))
              else str ''Manual''))"

definition determine_workflow_directory ::
  "(pystr \<Rightarrow> pystr) \<Rightarrow> (pystr \<Rightarrow> pystr) \<Rightarrow> node list \<Rightarrow> pystr" where
  "determine_workflow_directory lower capitalize nodes =
     (if nodes = [] then str ''Manual''
      else (case scan_nodes lower nodes None of
              None \<Rightarrow> first_node_label capitalize nodes
            | Some label \<Rightarrow>
                if label = [] \<or> label = str ''Manual'' then first_node_label capitalize nodes
                else label))"

text \<open>
  The classifier as the specification words it, for comparison with the code: a node
  proposes \<^verbatim>\<open>Webhook\<close> if its lowercase type or name contains \<^verbatim>\<open>webhook\<close>, otherwise
  \<^verbatim>\<open>Schedule\<close> if they contain \<^verbatim>\<open>cron\<close> or \<^verbatim>\<open>schedule\<close>, otherwise the label of the
  first table keyword they contain; a proposal replaces \<open>best\<close> only when \<open>best\<close> is unset
  or generic, and the scan stops once \<open>best\<close> is specific.
\<close>

definition table_label :: "pystr \<Rightarrow> pystr \<Rightarrow> pystr option" where
  "table_label ty nm =
     map_option snd (find (\<lambda>(key, directory). sublist key ty \<or> sublist key nm) service_mappings)"

definition spec_proposal :: "pystr \<Rightarrow> pystr \<Rightarrow> pystr option" where
  "spec_proposal ty nm =
     (if sublist (str ''webhook'') ty \<or> sublist (str ''webhook'') nm then Some (str ''Webhook'')
      else if sublist (str ''cron'') ty \<or> sublist (str ''cron'') nm \<or>
              sublist (str ''schedule'') ty \<or> sublist (str ''schedule'') nm
      then Some (str ''Schedule'')
      else table_label ty nm)"

fun spec_scan :: "(pystr \<Rightarrow> pystr) \<Rightarrow> node list \<Rightarrow> pystr option \<Rightarrow> pystr option" where
  "spec_scan lower [] best = best"
| "spec_scan lower (node # rest) best =
     (let proposal = spec_proposal (lower (get_or [] (node_type node)))
                                   (lower (get_or [] (node_name node)));
          best' = (case proposal of
                     None \<Rightarrow> best
                   | Some label \<Rightarrow>
                       if best = None \<or> is_one_of best generic_labels then Some label else best)
      in if best' \<noteq> None \<and> \<not> is_one_of best' generic_labels then best'
         else spec_scan lower rest best')"

text \<open>
  The scan that the table alone decides: a node with a table keyword in its lowercase type
  or name sets \<open>best\<close> to the label of the first such keyword, any other node leaves it.
\<close>

fun table_scan :: "(pystr \<Rightarrow> pystr) \<Rightarrow> node list \<Rightarrow> pystr option \<Rightarrow> pystr option" where
  "table_scan lower [] best = best"
| "table_scan lower (node # rest) best =
     (let best' = (case table_label (lower (get_or [] (node_type node)))
                                    (lower (get_or [] (node_name node))) of
                     None \<Rightarrow> best
                   | Some label \<Rightarrow> Some label)
      in if \<not> not_set best' \<and> \<not> is_one_of best' generic_labels then best'
         else table_scan lower rest best')"

text \<open>
  The fallback label as the specification words it: strip the vendor prefix, take the
  segment before the next dot, capitalize its first letter.
\<close>

definition spec_derived_label :: "pystr \<Rightarrow> pystr" where
  "spec_derived_label ty =
     (let stripped = (if prefix (str ''n8n-nodes-base.'') ty
                      then drop (length (str ''n8n-nodes-base.'')) ty else ty);
          segment = takeWhile (\<lambda>c. c \<noteq> 46) stripped
      in case segment of
           [] \<Rightarrow> []
         | c # cs \<Rightarrow> (if 97 \<le> c \<and> c \<le> 122 then c - 32 else c) # cs)"

section \<open>\<^verbatim>\<open>generate_mermaid_diagram\<close>\<close>

text \<open>
  The \<^verbatim>\<open>connections\<close> dictionary, in its iteration order, with the shapes the function
  tells apart by \<^verbatim>\<open>isinstance\<close> and \<^verbatim>\<open>in\<close>: a source's value is a dictionary with a
  \<^verbatim>\<open>main\<close> list or it is not; an output port is a list or it is not; an entry of a port
  is a dictionary, with or without a \<^verbatim>\<open>node\<close>, or it is not.
\<close>

datatype connection = Connection "pystr option" | NotADict

datatype output_port = Targets "connection list" | NotAList

datatype source_connections = Main "output_port list" | NoMain

text \<open>The decimal numeral that an f-string writes for a natural number.\<close>

function decimal :: "nat \<Rightarrow> pystr" where
  "decimal n = (if n < 10 then [48 + n] else decimal (n div 10) @ [48 + n mod 10])"
  by pat_completeness auto
termination
  by (relation "measure id") auto

text \<open>
  The first loop fills \<^verbatim>\<open>mermaid_ids\<close>: a later node of the same name overwrites the
  earlier entry. A node without a name is stored under \<^verbatim>\<open>Node i\<close>.
\<close>

fun build_mermaid_ids :: "nat \<Rightarrow> node list \<Rightarrow> (pystr \<rightharpoonup> pystr) \<Rightarrow> (pystr \<rightharpoonup> pystr)" where
  "build_mermaid_ids i [] mermaid_ids = mermaid_ids"
| "build_mermaid_ids i (node # rest) mermaid_ids =
     build_mermaid_ids (Suc i) rest
       (mermaid_ids(get_or (str ''Node '' @ decimal i) (node_name node) \<mapsto> str ''node'' @ decimal i))"

definition node_style :: "(pystr \<Rightarrow> pystr) \<Rightarrow> pystr \<Rightarrow> pystr" where
  "node_style lower ty =
     (if list_ex (\<lambda>x. sublist x (lower ty)) [str ''trigger'', str ''webhook'', str ''cron'']
      then str ''fill:#b3e0ff,stroke:#0066cc''
      else if list_ex (\<lambda>x. sublist x (lower ty)) [str ''if'', str ''switch'']
      then str ''fill:#ffffb3,stroke:#e6e600''
      else if list_ex (\<lambda>x. sublist x (lower ty)) [str ''function'', str ''code'']
      then str ''fill:#d9b3ff,stroke:#6600cc''
      else if sublist (str ''error'') (lower ty)
      then str ''fill:#ffb3b3,stroke:#cc0000''
      else str ''fill:#d9d9d9,stroke:#666666'')"

text \<open>
  The second loop writes two lines per node. It looks the node up under its name, or under
  \<^verbatim>\<open>Unnamed\<close> when it has none, and \<^verbatim>\<open>mermaid_ids[node_name]\<close> raises \<^verbatim>\<open>KeyError\<close>
  when that key is missing: the value \<open>None\<close>. Code point 34 is the double quote, which
  \<^verbatim>\<open>replace\<close> turns into the single quote 39.
\<close>

fun node_lines :: "(pystr \<Rightarrow> pystr) \<Rightarrow> (pystr \<rightharpoonup> pystr) \<Rightarrow> node list \<Rightarrow> pystr list option" where
  "node_lines lower mermaid_ids [] = Some []"
| "node_lines lower mermaid_ids (node # rest) =
     (let nm = get_or (str ''Unnamed'') (node_name node) in
      case mermaid_ids nm of
        None \<Rightarrow> None
      | Some node_id \<Rightarrow>
          (let ty = str_replace (str ''n8n-nodes-base.'') [] (get_or [] (node_type node));
               style = node_style lower ty;
               clean_name = str_replace [34] [39] nm;
               clean_type = str_replace [34] [39] ty;
               label = clean_name @ str ''<br>('' @ clean_type @ str '')''
           in map_option
                (\<lambda>lines. (str ''  '' @ node_id @ str ''['' @ [34] @ label @ [34] @ str '']'') #
                          (str ''  style '' @ node_id @ str '' '' @ style) # lines)
                (node_lines lower mermaid_ids rest)))"

text \<open>The third loop: the edges, source by source, port by port, entry by entry.\<close>

fun port_edges :: "(pystr \<rightharpoonup> pystr) \<Rightarrow> pystr \<Rightarrow> pystr \<Rightarrow> connection list \<Rightarrow> pystr list" where
  "port_edges mermaid_ids source_id label [] = []"
| "port_edges mermaid_ids source_id label (NotADict # rest) =
     port_edges mermaid_ids source_id label rest"
| "port_edges mermaid_ids source_id label (Connection None # rest) =
     port_edges mermaid_ids source_id label rest"
| "port_edges mermaid_ids source_id label (Connection (Some target_name) # rest) =
     (case mermaid_ids target_name of
        None \<Rightarrow> port_edges mermaid_ids source_id label rest
      | Some target_id \<Rightarrow>
          (str ''  '' @ source_id @ label @ target_id) #
          port_edges mermaid_ids source_id label rest)"

fun main_edges ::
  "(pystr \<rightharpoonup> pystr) \<Rightarrow> pystr \<Rightarrow> nat \<Rightarrow> nat \<Rightarrow> output_port list \<Rightarrow> pystr list" where
  "main_edges mermaid_ids source_id ports i [] = []"
| "main_edges mermaid_ids source_id ports i (NotAList # rest) =
     main_edges mermaid_ids source_id ports (Suc i) rest"
| "main_edges mermaid_ids source_id ports i (Targets output_connections # rest) =
     port_edges mermaid_ids source_id
       (if 1 < ports then str '' -->|'' @ decimal i @ str ''| '' else str '' --> '')
       output_connections @
     main_edges mermaid_ids source_id ports (Suc i) rest"

fun connection_edges ::
  "(pystr \<rightharpoonup> pystr) \<Rightarrow> (pystr \<times> source_connections) list \<Rightarrow> pystr list" where
  "connection_edges mermaid_ids [] = []"
| "connection_edges mermaid_ids ((source_name, source_connections) # rest) =
     (case mermaid_ids source_name of
        None \<Rightarrow> connection_edges mermaid_ids rest
      | Some source_id \<Rightarrow>
          (case source_connections of
             NoMain \<Rightarrow> []
           | Main main_connections \<Rightarrow>
               main_edges mermaid_ids source_id (length main_connections) 0 main_connections) @
          connection_edges mermaid_ids rest)"

text \<open>\<^verbatim>\<open>"\n".join(lines)\<close>; the line feed is code point 10.\<close>

fun join_lines :: "pystr list \<Rightarrow> pystr" where
  "join_lines [] = []"
| "join_lines [line] = line"
| "join_lines (line # next_line # rest) = line @ [10] @ join_lines (next_line # rest)"

definition generate_mermaid_diagram ::
  "(pystr \<Rightarrow> pystr) \<Rightarrow> node list \<Rightarrow> (pystr \<times> source_connections) list \<Rightarrow> pystr option" where
  "generate_mermaid_diagram lower nodes connections =
     (if nodes = [] then
        Some (str ''graph TD'' @ [10] @ str ''  EmptyWorkflow[No nodes found in workflow]'')
      else
        (let mermaid_ids = build_mermaid_ids 0 nodes Map.empty in
         case node_lines lower mermaid_ids nodes of
           None \<Rightarrow> None
         | Some declarations \<Rightarrow>
             Some (join_lines
                     (str ''graph TD'' # declarations @ connection_edges mermaid_ids connections))))"

section \<open>Percent-decoding keeps plain text\<close>

text \<open>
  A run of plain code points that occurs in a text still occurs, with its members next to
  each other, in every successful decoding of it: \<^verbatim>\<open>unquote_to_bytes\<close> only rewrites
  \<^verbatim>\<open>%\<close> and the two hexadecimal digits behind it, and the strict UTF-8 decoder maps each
  byte below 128 to itself and builds every other code point from bytes above 127.
\<close>

lemma u2b_prefix:
  "\<forall>c\<in>set p. plain_char c \<Longrightarrow> prefix p s \<Longrightarrow> prefix p (unquote_to_bytes s)"
proof (induction p arbitrary: s)
  case Nil
  then show ?case by simp
next
  case (Cons x p)
  then obtain s' where s: "s = x # s'" and p: "prefix p s'"
    by (cases s) auto
  from Cons.prems have "x \<noteq> 37" by (simp add: plain_char_def)
  with Cons.IH [OF _ p] Cons.prems(1) s show ?case by simp
qed

lemma u2b_escape:
  "is_hexdig h1 \<Longrightarrow> is_hexdig h2 \<Longrightarrow>
   unquote_to_bytes (37 # h1 # h2 # rest) = (16 * hexval h1 + hexval h2) # unquote_to_bytes rest"
  by simp

lemma u2b_other:
  "\<not> (c = 37 \<and> (\<exists>h1 h2 rest. cs = h1 # h2 # rest \<and> is_hexdig h1 \<and> is_hexdig h2)) \<Longrightarrow>
   unquote_to_bytes (c # cs) = c # unquote_to_bytes cs"
  by (cases cs; cases "tl cs") auto

lemma u2b_sublist:
  "\<forall>c\<in>set p. plain_char c \<Longrightarrow> p \<noteq> [] \<Longrightarrow> sublist p s \<Longrightarrow> sublist p (unquote_to_bytes s)"
proof (induction s rule: length_induct)
  case (1 s)
  from "1.prems" obtain x p' where p: "p = x # p'" and x: "plain_char x"
    by (cases p) auto
  from "1.prems" p obtain c cs where s: "s = c # cs"
    by (cases s) auto
  show ?case
  proof (cases "prefix p s")
    case True
    with u2b_prefix [OF "1.prems"(1)] show ?thesis
      using prefix_imp_sublist by blast
  next
    case False
    with "1.prems"(3) s have sub: "sublist p cs" by (simp add: sublist_Cons_right)
    show ?thesis
    proof (cases "c = 37 \<and> (\<exists>h1 h2 rest. cs = h1 # h2 # rest \<and> is_hexdig h1 \<and> is_hexdig h2)")
      case True
      then obtain h1 h2 rest where cs: "cs = h1 # h2 # rest" and h: "is_hexdig h1" "is_hexdig h2"
        and c: "c = 37" by blast
      from x h have "x \<noteq> h1" "x \<noteq> h2" by (auto simp: plain_char_def)
      with sub cs p have r: "sublist p rest" by (simp add: sublist_Cons_right)
      have "length rest < length s" using s cs by simp
      with "1.IH" "1.prems"(1,2) r have "sublist p (unquote_to_bytes rest)" by blast
      then have "sublist p ((16 * hexval h1 + hexval h2) # unquote_to_bytes rest)"
        by (simp add: sublist_Cons_right)
      with u2b_escape [OF h] s c cs show ?thesis by simp
    next
      case False
      have "length cs < length s" using s by simp
      with "1.IH" "1.prems"(1,2) sub have "sublist p (unquote_to_bytes cs)" by blast
      then have "sublist p (c # unquote_to_bytes cs)"
        by (simp add: sublist_Cons_right)
      with u2b_other [OF False] s show ?thesis by simp
    qed
  qed
qed

lemma utf8_next_ascii: "b < 128 \<Longrightarrow> utf8_next b bs = Some (b, bs)"
  by (simp add: utf8_next_def)

lemma utf8_next_high:
  assumes "utf8_next b bs = Some (cp, r)" and "128 \<le> b"
  shows "\<exists>ks. bs = ks @ r \<and> (\<forall>k\<in>set ks. 128 \<le> k)"
proof -
  have c3: "second_ok3 b c \<Longrightarrow> 128 \<le> c" for c
    by (auto simp: second_ok3_def is_cont_def split: if_splits)
  have c4: "second_ok4 b c \<Longrightarrow> 128 \<le> c" for c
    by (auto simp: second_ok4_def is_cont_def split: if_splits)
  consider (two) "194 \<le> b \<and> b \<le> 223" | (three) "224 \<le> b \<and> b \<le> 239"
    | (four) "240 \<le> b \<and> b \<le> 244" | (bad) "b < 194 \<or> 244 < b"
    by linarith
  then show ?thesis
  proof cases
    case two
    with assms obtain c1 where "bs = [c1] @ r" "is_cont c1"
      by (auto simp: utf8_next_def split: list.splits if_splits)
    then show ?thesis by (auto simp: is_cont_def)
  next
    case three
    with assms obtain c1 c2 where "bs = [c1, c2] @ r" "second_ok3 b c1" "is_cont c2"
      by (auto simp: utf8_next_def split: list.splits if_splits)
    then show ?thesis using c3 by (intro exI [of _ "[c1, c2]"]) (auto simp: is_cont_def)
  next
    case four
    with assms obtain c1 c2 c3 where "bs = [c1, c2, c3] @ r" "second_ok4 b c1" "is_cont c2" "is_cont c3"
      by (auto simp: utf8_next_def split: list.splits if_splits)
    then show ?thesis using c4 by (intro exI [of _ "[c1, c2, c3]"]) (auto simp: is_cont_def)
  next
    case bad
    with assms show ?thesis by (auto simp: utf8_next_def split: if_splits)
  qed
qed

lemma sublist_skip_high:
  "\<forall>k\<in>set ks. (128::nat) \<le> k \<Longrightarrow> x < 128 \<Longrightarrow> sublist (x # p') (ks @ r) \<Longrightarrow> sublist (x # p') r"
  by (induction ks) (auto simp: sublist_Cons_right)

lemma utf8_prefix:
  "\<forall>c\<in>set p. c < 128 \<Longrightarrow> prefix p bs \<Longrightarrow> utf8_decode bs = Some d \<Longrightarrow> prefix p d"
proof (induction p arbitrary: bs d)
  case Nil
  then show ?case by simp
next
  case (Cons x p)
  then obtain bs' where bs: "bs = x # bs'" and p: "prefix p bs'"
    by (cases bs) auto
  from Cons.prems have x: "x < 128" by simp
  from Cons.prems(3) bs utf8_next_ascii [OF x] obtain d' where
    d: "d = x # d'" and d': "utf8_decode bs' = Some d'"
    by auto
  from Cons.IH [OF _ p d'] Cons.prems(1) d show ?case by simp
qed

lemma utf8_sublist:
  "\<forall>c\<in>set p. c < 128 \<Longrightarrow> p \<noteq> [] \<Longrightarrow> sublist p bs \<Longrightarrow> utf8_decode bs = Some d \<Longrightarrow>
   sublist p d"
proof (induction bs arbitrary: d rule: length_induct)
  case (1 bs)
  from "1.prems" obtain x p' where p: "p = x # p'" and x: "x < 128"
    by (cases p) auto
  from "1.prems" p obtain b bs' where bs: "bs = b # bs'"
    by (cases bs) auto
  from "1.prems"(4) bs obtain cp r d' where
    nxt: "utf8_next b bs' = Some (cp, r)" and d: "d = cp # d'" and d': "utf8_decode r = Some d'"
    by (auto split: option.splits)
  show ?case
  proof (cases "prefix p bs")
    case True
    from utf8_prefix [OF "1.prems"(1) True "1.prems"(4)] show ?thesis
      by (rule prefix_imp_sublist)
  next
    case False
    with "1.prems"(3) bs have sub: "sublist p bs'" by (simp add: sublist_Cons_right)
    have "sublist p r \<and> length r < length bs"
    proof (cases "b < 128")
      case True
      with nxt utf8_next_ascii [of b bs'] bs sub show ?thesis by simp
    next
      case False
      with utf8_next_high [OF nxt] obtain ks where ks: "bs' = ks @ r" "\<forall>k\<in>set ks. 128 \<le> k"
        by auto
      with sublist_skip_high [of ks x p' r] x sub p bs show ?thesis by simp
    qed
    with "1.IH" "1.prems"(1,2) d' have "sublist p d'" by blast
    with d show ?thesis by (simp add: sublist_Cons_right)
  qed
qed

lemma plain_char_ascii: "plain_char c \<Longrightarrow> c < 128"
  by (simp add: plain_char_def)

lemma prefix_takeWhile:
  "\<forall>c\<in>set p. P c \<Longrightarrow> prefix p s \<Longrightarrow> prefix p (takeWhile P s)"
proof (induction p arbitrary: s)
  case Nil
  then show ?case by simp
next
  case (Cons a p)
  then obtain s' where "s = a # s'" "prefix p s'" by (cases s) auto
  with Cons show ?case by simp
qed

lemma sublist_takeWhile_dropWhile:
  "\<forall>c\<in>set p. P c \<Longrightarrow> p \<noteq> [] \<Longrightarrow> sublist p s \<Longrightarrow>
   sublist p (takeWhile P s) \<or> sublist p (dropWhile P s)"
proof (induction s)
  case Nil
  then show ?case by simp
next
  case (Cons x xs)
  show ?case
  proof (cases "prefix p (x # xs)")
    case True
    from prefix_takeWhile [OF Cons.prems(1) True] show ?thesis
      by (blast intro: prefix_imp_sublist)
  next
    case False
    with Cons.prems(3) have "sublist p xs" by (simp add: sublist_Cons_right)
    with Cons.IH Cons.prems(1,2) show ?thesis
      by (auto simp: sublist_Cons_right)
  qed
qed

lemma unquote_parts_sublist:
  "\<forall>c\<in>set p. plain_char c \<Longrightarrow> p \<noteq> [] \<Longrightarrow> sublist p s \<Longrightarrow> unquote_parts s = Some d \<Longrightarrow>
   sublist p d"
proof (induction s arbitrary: d rule: length_induct)
  case (1 s)
  let ?A = "\<lambda>x::nat. x < 128"
  from "1.prems" obtain x p' where p: "p = x # p'" and x: "x < 128"
    by (cases p) (auto dest: plain_char_ascii)
  from "1.prems" p obtain c cs where s: "s = c # cs"
    by (cases s) auto
  have asc: "\<forall>c\<in>set p. ?A c" using "1.prems"(1) by (auto dest: plain_char_ascii)
  show ?case
  proof (cases "c < 128")
    case True
    let ?run = "c # takeWhile ?A cs" and ?rest = "dropWhile ?A cs"
    from "1.prems"(4) s True obtain d1 d2 where
      d1: "utf8_decode (unquote_to_bytes ?run) = Some d1" and
      d2: "unquote_parts ?rest = Some d2" and d: "d = d1 @ d2"
      by (auto split: option.splits)
    have tw: "takeWhile ?A s = ?run" "dropWhile ?A s = ?rest"
      using s True by simp_all
    from sublist_takeWhile_dropWhile [OF asc "1.prems"(2,3)] tw
    consider (run) "sublist p ?run" | (rest) "sublist p ?rest" by auto
    then show ?thesis
    proof cases
      case run
      from utf8_sublist [OF asc "1.prems"(2) u2b_sublist [OF "1.prems"(1,2) run] d1]
      have "sublist p d1" .
      with d show ?thesis by (metis sublist_append)
    next
      case rest
      have "length ?rest < length s" using s
        by (simp add: le_imp_less_Suc length_dropWhile_le)
      with "1.IH" "1.prems"(1,2) rest d2 have "sublist p d2" by blast
      with d show ?thesis by (metis sublist_append)
    qed
  next
    case False
    with "1.prems"(4) s obtain d' where d: "d = c # d'" and d': "unquote_parts cs = Some d'"
      by auto
    from False x p have "\<not> prefix p (c # cs)" by auto
    with "1.prems"(3) s have "sublist p cs" by (simp add: sublist_Cons_right)
    moreover have "length cs < length s" using s by simp
    ultimately have "sublist p d'" using "1.IH" "1.prems"(1,2) d' by blast
    with d show ?thesis by (simp add: sublist_Cons_right)
  qed
qed

lemma unquote_sublist:
  "\<forall>c\<in>set p. plain_char c \<Longrightarrow> p \<noteq> [] \<Longrightarrow> sublist p s \<Longrightarrow> unquote s = Some d \<Longrightarrow>
   sublist p d"
  using unquote_parts_sublist [of p s d] by (auto simp: unquote_def split: if_splits)

lemma decode_passes_sublist:
  "\<forall>c\<in>set p. plain_char c \<Longrightarrow> p \<noteq> [] \<Longrightarrow> sublist p s \<Longrightarrow> decode_passes n s = Some d \<Longrightarrow>
   sublist p d"
proof (induction n arbitrary: s)
  case 0
  then show ?case by simp
next
  case (Suc n)
  from Suc.prems(4) obtain a where a: "unquote s = Some a" and d: "decode_passes n a = Some d"
    by (auto split: option.splits)
  from unquote_sublist [OF Suc.prems(1,2,3) a] Suc.IH [OF Suc.prems(1,2) _ d] show ?case
    by blast
qed

lemma decode_passes_add:
  "decode_passes (m + n) s =
     (case decode_passes m s of None \<Rightarrow> None | Some a \<Rightarrow> decode_passes n a)"
  by (induction m arbitrary: s) (auto split: option.splits)

lemma sublist_single: "sublist [x] s \<longleftrightarrow> x \<in> set s"
  by (induction s) (auto simp: sublist_Cons_right)

lemma decode_passes_upto:
  assumes "k \<le> 3" and "decode_passes k s = Some d" and "validate_filename s"
  obtains d' where "decode_passes 3 s = Some d'" and "decode_passes (3 - k) d = Some d'"
proof -
  from assms(1) have "decode_passes 3 s = decode_passes (k + (3 - k)) s" by simp
  also have "\<dots> = decode_passes (3 - k) d"
    using assms(2) by (simp only: decode_passes_add option.case)
  finally have "decode_passes 3 s = decode_passes (3 - k) d" .
  moreover from assms(3) obtain d' where "decode_passes 3 s = Some d'"
    by (auto simp: validate_filename_def split: option.splits)
  ultimately show ?thesis using that by metis
qed

lemma validate_rejects_plain:
  assumes "k \<le> 3" and "decode_passes k s = Some d" and "sublist p d"
    and "p \<in> set dangerous_patterns" and "\<forall>c\<in>set p. plain_char c" and "p \<noteq> []"
  shows "\<not> validate_filename s"
proof
  assume v: "validate_filename s"
  from decode_passes_upto [OF assms(1,2) v] obtain d' where
    d': "decode_passes 3 s = Some d'" "decode_passes (3 - k) d = Some d'" .
  from decode_passes_sublist [OF assms(5,6,3) d'(2)] have "sublist p d'" .
  with assms(4) have "list_ex (\<lambda>pattern. sublist pattern d') dangerous_patterns"
    by (auto simp: list_ex_iff)
  with v d'(1) show False by (simp add: validate_filename_def)
qed

lemma plain_patterns:
  "str ''..'' \<in> set dangerous_patterns" "\<forall>c\<in>set (str ''..''). plain_char c"
  "str ''/'' \<in> set dangerous_patterns" "\<forall>c\<in>set (str ''/''). plain_char c"
  "[92] \<in> set dangerous_patterns" "\<forall>c\<in>set [92]. plain_char c"
  "[0] \<in> set dangerous_patterns" "\<forall>c\<in>set [0]. plain_char c"
  by (simp_all add: dangerous_patterns_def str_def plain_char_def is_hexdig_def)

section \<open>What \<^verbatim>\<open>validate_filename\<close> accepts\<close>

lemma json_suffix: "str ''.json'' = [46, 106, 115, 111, 110]"
  by (simp add: str_def)

lemma dangerous_patterns_eq:
  "dangerous_patterns =
     [[46, 46], [46, 46, 92], [46, 46, 47], [92], [47], [0], [10], [13], [126], [58], [124],
      [60], [62], [42], [63], [36], [59], [38]]"
  by (simp add: dangerous_patterns_def str_def)

lemma pattern_cases:
  "\<forall>p\<in>set dangerous_patterns. p = [46, 46] \<or> (\<exists>c\<in>set p. c \<in> bad_chars)"
  by (simp add: dangerous_patterns_eq bad_chars_def)

lemma bad_chars_unsafe: "\<forall>c\<in>bad_chars. \<not> safe_char c \<and> c \<notin> {46, 106, 115, 111, 110}"
  by (simp add: bad_chars_def safe_char_def)

lemma no_dotdot:
  "\<forall>c\<in>set body. safe_char c \<Longrightarrow> \<not> sublist [46, 46] (body @ [46, 106, 115, 111, 110])"
proof (induction body)
  case Nil
  show ?case by (simp add: sublist_Cons_right)
next
  case (Cons x body)
  from Cons.prems have "x \<noteq> 46" by (auto simp: safe_char_def)
  with Cons show ?case by (simp add: sublist_Cons_right)
qed

lemma safe_json_no_bad:
  assumes "\<forall>c\<in>set body. safe_char c" and "c \<in> bad_chars"
  shows "c \<notin> set (body @ str ''.json'')"
proof
  assume "c \<in> set (body @ str ''.json'')"
  then have "c \<in> set body \<or> c \<in> {46, 106, 115, 111, 110}"
    by (simp add: json_suffix) blast
  with assms(1) have "safe_char c \<or> c \<in> {46, 106, 115, 111, 110}" by blast
  with bad_chars_unsafe assms(2) show False by blast
qed

lemma safe_json_no_pattern:
  assumes body: "\<forall>c\<in>set body. safe_char c" and p: "p \<in> set dangerous_patterns"
  shows "\<not> sublist p (body @ str ''.json'')"
proof
  assume sub: "sublist p (body @ str ''.json'')"
  then have subset: "set p \<subseteq> set (body @ str ''.json'')" by (rule set_mono_sublist)
  from pattern_cases p consider "p = [46, 46]" | c where "c \<in> set p" "c \<in> bad_chars"
    by blast
  then show False
  proof cases
    case 1
    with sub no_dotdot [OF body] show False by (simp add: json_suffix)
  next
    case 2
    with subset safe_json_no_bad [OF body] show False by blast
  qed
qed

lemma safe_json_passes:
  assumes body: "body \<noteq> []" "\<forall>c\<in>set body. safe_char c"
    and d: "d = body @ str ''.json''"
  shows "\<not> list_ex (\<lambda>pattern. sublist pattern d) dangerous_patterns"
    and "\<not> prefix (str ''/'') d" and "\<not> prefix [92] d"
    and "\<not> (2 \<le> length d \<and> d ! 1 = 58)"
    and "re_match_json d" and "suffix (str ''.json'') d"
proof -
  show "\<not> list_ex (\<lambda>pattern. sublist pattern d) dangerous_patterns"
    using safe_json_no_pattern [OF body(2)] d by (simp add: list_ex_iff)
  have b: "47 \<in> bad_chars" "92 \<in> bad_chars" "58 \<in> bad_chars"
    by (simp_all add: bad_chars_def)
  have n47: "47 \<notin> set d" using safe_json_no_bad [OF body(2) b(1)] d by simp
  have n92: "92 \<notin> set d" using safe_json_no_bad [OF body(2) b(2)] d by simp
  have n58: "58 \<notin> set d" using safe_json_no_bad [OF body(2) b(3)] d by simp
  have "str ''/'' = [47]" by (simp add: str_def)
  with n47 show "\<not> prefix (str ''/'') d"
    by (metis list.set_intros(1) prefix_imp_sublist sublist_single sublist_order.dual_order.refl
        set_mono_sublist subsetD)
  from n92 show "\<not> prefix [92] d"
    by (metis list.set_intros(1) prefix_imp_sublist set_mono_sublist subsetD)
  show "\<not> (2 \<le> length d \<and> d ! 1 = 58)"
  proof
    assume a: "2 \<le> length d \<and> d ! 1 = 58"
    then have "1 < length d" by simp
    then have "d ! 1 \<in> set d" by (rule nth_mem)
    with a n58 show False by simp
  qed
  have "\<not> safe_char 46" by (simp add: safe_char_def)
  then have "takeWhile safe_char d = body" "dropWhile safe_char d = str ''.json''"
    using body(2) d by (simp_all add: json_suffix)
  with body(1) show "re_match_json d" by (simp add: re_match_json_def)
  show "suffix (str ''.json'') d" using d by (simp add: suffix_def)
qed

lemma validate_filename_iff:
  "validate_filename filename \<longleftrightarrow>
     (\<exists>body. body \<noteq> [] \<and> (\<forall>c\<in>set body. safe_char c) \<and>
             decode_passes 3 filename = Some (body @ str ''.json''))"
proof
  assume v: "validate_filename filename"
  then obtain d where d: "decode_passes 3 filename = Some d"
    by (auto simp: validate_filename_def split: option.splits)
  from v d have nd: "\<not> list_ex (\<lambda>pattern. sublist pattern d) dangerous_patterns"
    and m: "re_match_json d"
    by (auto simp: validate_filename_def split: if_splits)
  let ?body = "takeWhile safe_char d" and ?rest = "dropWhile safe_char d"
  from m have body: "?body \<noteq> []" and rest: "?rest = str ''.json'' \<or> ?rest = str ''.json'' @ [10]"
    by (simp_all add: re_match_json_def Let_def)
  have split: "d = ?body @ ?rest" by simp
  have "[10] \<in> set dangerous_patterns" by (simp add: dangerous_patterns_def)
  with nd have "\<not> sublist [10] d" by (auto simp: list_ex_iff)
  then have "10 \<notin> set ?rest"
    using split by (metis Un_iff set_append sublist_single)
  with rest have "?rest = str ''.json''" by auto
  with split have "d = ?body @ str ''.json''" by simp
  moreover have "\<forall>c\<in>set ?body. safe_char c" by (auto dest: set_takeWhileD)
  ultimately show "\<exists>body. body \<noteq> [] \<and> (\<forall>c\<in>set body. safe_char c) \<and>
             decode_passes 3 filename = Some (body @ str ''.json'')"
    using body d by metis
next
  assume "\<exists>body. body \<noteq> [] \<and> (\<forall>c\<in>set body. safe_char c) \<and>
             decode_passes 3 filename = Some (body @ str ''.json'')"
  then obtain body where body: "body \<noteq> []" "\<forall>c\<in>set body. safe_char c"
    and d: "decode_passes 3 filename = Some (body @ str ''.json'')" by blast
  from safe_json_passes [OF body refl] d show "validate_filename filename"
    by (simp add: validate_filename_def)
qed

lemma alphabet_upt: "filename_alphabet = [97..<123] @ [65..<91] @ [48..<58] @ [95, 45]"
  by (simp add: filename_alphabet_def str_def)

lemma safe_char_alphabet: "safe_char c \<longleftrightarrow> c \<in> set filename_alphabet"
  unfolding alphabet_upt safe_char_def by (simp only: set_append set_upt) auto

lemma decode_passes_plain: "37 \<notin> set s \<Longrightarrow> decode_passes n s = Some s"
  by (induction n) (simp_all add: unquote_def)

lemma accepts_report: "validate_filename (str ''report.json'')"
  unfolding validate_filename_iff
  by (rule exI [of _ "str ''report''"]) (simp add: str_def safe_char_def decode_passes_plain)

lemma accepts_my_file: "validate_filename (str ''My-File_1.json'')"
  unfolding validate_filename_iff
  by (rule exI [of _ "str ''My-File_1''"]) (simp add: str_def safe_char_def decode_passes_plain)

lemma rejects_etc_passwd: "\<not> validate_filename (str ''../../etc/passwd'')"
proof -
  have "sublist (str ''/'') (str ''../../etc/passwd'')"
    by (simp add: str_def sublist_Cons_right)
  from validate_rejects_plain [of 0, OF _ _ this plain_patterns(3,4)] show ?thesis
    by (simp add: str_def)
qed

lemma rejects_encoded_traversal: "\<not> validate_filename (str ''a%2e%2e%2fb.json'')"
proof -
  have "decode_passes 1 (str ''a%2e%2e%2fb.json'') = Some (str ''a../b.json'')"
    by (simp add: str_def unquote_def is_hexdig_def hexval_def utf8_next_def)
  moreover have "sublist (str ''/'') (str ''a../b.json'')"
    by (simp add: str_def sublist_Cons_right)
  ultimately show ?thesis
    using validate_rejects_plain [of 1, OF _ _ _ plain_patterns(3,4)] by (simp add: str_def)
qed

lemma rejects_space: "\<not> validate_filename (str ''bad name.json'')"
  by (simp add: validate_filename_def decode_passes_plain str_def re_match_json_def
      safe_char_def split: if_splits)

lemma rejects_empty: "\<not> validate_filename []"
  by (simp add: validate_filename_def decode_passes_plain re_match_json_def)

lemma rejects_bare_suffix: "\<not> validate_filename (str ''.json'')"
  by (simp add: validate_filename_def decode_passes_plain str_def re_match_json_def
      safe_char_def)

lemma decodes_encoded_dot:
  "decode_passes 3 (str ''report%2ejson'') = Some (str ''report'' @ str ''.json'')"
  by (simp add: str_def unquote_def is_hexdig_def hexval_def utf8_next_def numeral_3_eq_3)

lemma accepts_encoded_dot: "validate_filename (str ''report%2ejson'')"
  unfolding validate_filename_iff
  by (rule exI [of _ "str ''report''"]) (simp add: decodes_encoded_dot, simp add: str_def safe_char_def)

text \<open>
  Claim C2. Whenever the text reached after \<open>k\<close> of the three percent-decoding passes
  (\<open>k\<close> = 0, 1, 2 or 3, so also the fully decoded text) contains \<^verbatim>\<open>..\<close>, \<^verbatim>\<open>/\<close> or a
  backslash, \<^verbatim>\<open>validate_filename\<close> returns false; it also returns false when one of the
  passes raises a decoding error.
\<close>

theorem validate_filename_rejects_traversal:
  assumes "k \<le> 3"
    and "decode_passes k filename = None \<or>
         (\<exists>d. decode_passes k filename = Some d \<and>
              (sublist (str ''..'') d \<or> sublist (str ''/'') d \<or> sublist [92] d))"
  shows "\<not> validate_filename filename"
proof
  assume v: "validate_filename filename"
  from assms(2) show False
  proof
    assume none: "decode_passes k filename = None"
    from assms(1) have "decode_passes 3 filename = decode_passes (k + (3 - k)) filename" by simp
    also have "\<dots> = None" using none by (simp only: decode_passes_add option.case)
    finally show False using v by (simp add: validate_filename_def)
  next
    assume "\<exists>d. decode_passes k filename = Some d \<and>
              (sublist (str ''..'') d \<or> sublist (str ''/'') d \<or> sublist [92] d)"
    then obtain d where d: "decode_passes k filename = Some d"
      and "sublist (str ''..'') d \<or> sublist (str ''/'') d \<or> sublist [92] d" by blast
    then consider "sublist (str ''..'') d" | "sublist (str ''/'') d" | "sublist [92] d" by blast
    then show False
    proof cases
      case 1
      from validate_rejects_plain [OF assms(1) d 1 plain_patterns(1,2)] v show False
        by (simp add: str_def)
    next
      case 2
      from validate_rejects_plain [OF assms(1) d 2 plain_patterns(3,4)] v show False
        by (simp add: str_def)
    next
      case 3
      from validate_rejects_plain [OF assms(1) d 3 plain_patterns(5,6)] v show False
        by simp
    qed
  qed
qed

theorem validate_filename_rejects_traversal_witness:
  "decode_passes 3 (str ''%25252e%25252e%25252fx.json'') = Some (str ''../x.json'') \<and>
   \<not> validate_filename (str ''%25252e%25252e%25252fx.json'') \<and>
   decode_passes 1 (str ''%ff.json'') = None \<and>
   \<not> validate_filename (str ''%ff.json'')"
proof -
  have d: "decode_passes 3 (str ''%25252e%25252e%25252fx.json'') = Some (str ''../x.json'')"
    by (simp add: str_def unquote_def is_hexdig_def hexval_def utf8_next_def numeral_3_eq_3)
  have s: "sublist (str ''..'') (str ''../x.json'')"
    by (simp add: str_def sublist_Cons_right)
  have e: "decode_passes 1 (str ''%ff.json'') = None"
    by (simp add: str_def unquote_def is_hexdig_def hexval_def utf8_next_def)
  from validate_filename_rejects_traversal [of 3 "str ''%25252e%25252e%25252fx.json''"] d s
  have "\<not> validate_filename (str ''%25252e%25252e%25252fx.json'')" by simp
  moreover from validate_filename_rejects_traversal [of 1 "str ''%ff.json''"] e
  have "\<not> validate_filename (str ''%ff.json'')" by simp
  ultimately show ?thesis using d e by simp
qed

text \<open>
  Claim C4. \<^verbatim>\<open>validate_filename\<close> returns true exactly for the candidates whose text
  after the three decoding passes is one or more characters of \<^verbatim>\<open>[A-Za-z0-9_-]\<close>
  followed by \<^verbatim>\<open>.json\<close> and nothing else; and it accepts \<^verbatim>\<open>report.json\<close> and
  \<^verbatim>\<open>My-File_1.json\<close> and rejects \<^verbatim>\<open>../../etc/passwd\<close>, \<^verbatim>\<open>a%2e%2e%2fb.json\<close>,
  \<^verbatim>\<open>bad name.json\<close>, the empty text and \<^verbatim>\<open>.json\<close>.
\<close>

theorem validate_filename_characterisation:
  "(validate_filename filename \<longleftrightarrow>
      (\<exists>body. body \<noteq> [] \<and> set body \<subseteq> set filename_alphabet \<and>
              decode_passes 3 filename = Some (body @ str ''.json''))) \<and>
   validate_filename (str ''report.json'') \<and>
   validate_filename (str ''My-File_1.json'') \<and>
   \<not> validate_filename (str ''../../etc/passwd'') \<and>
   \<not> validate_filename (str ''a%2e%2e%2fb.json'') \<and>
   \<not> validate_filename (str ''bad name.json'') \<and>
   \<not> validate_filename [] \<and>
   \<not> validate_filename (str ''.json'')"
proof -
  have "(\<forall>c\<in>set body. safe_char c) \<longleftrightarrow> set body \<subseteq> set filename_alphabet" for body
    by (auto simp: safe_char_alphabet)
  then have "validate_filename filename \<longleftrightarrow>
      (\<exists>body. body \<noteq> [] \<and> set body \<subseteq> set filename_alphabet \<and>
              decode_passes 3 filename = Some (body @ str ''.json''))"
    unfolding validate_filename_iff by simp
  with accepts_report accepts_my_file rejects_etc_passwd rejects_encoded_traversal
    rejects_space rejects_empty rejects_bare_suffix
  show ?thesis by blast
qed

theorem validate_filename_characterisation_witness:
  "set (str ''My-File_1'') \<subseteq> set filename_alphabet \<and>
   decode_passes 3 (str ''My%2dFile_1%2Ejson'') = Some (str ''My-File_1'' @ str ''.json'') \<and>
   validate_filename (str ''My%2dFile_1%2Ejson'')"
proof -
  have d: "decode_passes 3 (str ''My%2dFile_1%2Ejson'') = Some (str ''My-File_1'' @ str ''.json'')"
    by (simp add: str_def unquote_def is_hexdig_def hexval_def utf8_next_def numeral_3_eq_3)
  have a: "set (str ''My-File_1'') \<subseteq> set filename_alphabet"
    by (simp add: str_def filename_alphabet_def)
  have n: "str ''My-File_1'' \<noteq> []" by (simp add: str_def)
  from validate_filename_characterisation [of "str ''My%2dFile_1%2Ejson''"] d a n
  have "validate_filename (str ''My%2dFile_1%2Ejson'')" by blast
  with d a show ?thesis by simp
qed

text \<open>
  Claim C10. A raw candidate that \<^verbatim>\<open>validate_filename\<close> accepts, taken as it was
  received and before any decoding, contains no \<^verbatim>\<open>..\<close>, no \<^verbatim>\<open>/\<close>, no backslash and no
  NUL, and does not begin with \<^verbatim>\<open>/\<close> or a backslash. The endpoints join this raw text to
  a subdirectory, so it names neither a parent directory nor an absolute path.
\<close>

theorem validate_filename_raw_safe:
  assumes "validate_filename raw"
  shows "\<not> sublist (str ''..'') raw \<and> \<not> sublist (str ''/'') raw \<and> \<not> sublist [92] raw \<and>
         0 \<notin> set raw \<and> \<not> prefix (str ''/'') raw \<and> \<not> prefix [92] raw"
proof -
  have raw: "decode_passes 0 raw = Some raw" by simp
  have r: "\<not> sublist p raw"
    if "p \<in> set dangerous_patterns" "\<forall>c\<in>set p. plain_char c" "p \<noteq> []" for p
    using validate_rejects_plain [OF _ raw _ that] assms by auto
  have a: "\<not> sublist (str ''..'') raw" using r [OF plain_patterns(1,2)] by (simp add: str_def)
  have b: "\<not> sublist (str ''/'') raw" using r [OF plain_patterns(3,4)] by (simp add: str_def)
  have c: "\<not> sublist [92] raw" using r [OF plain_patterns(5,6)] by simp
  have d: "\<not> sublist [0] raw" using r [OF plain_patterns(7,8)] by simp
  from a b c d show ?thesis
    by (auto simp: sublist_single dest: prefix_imp_sublist)
qed

theorem validate_filename_raw_safe_witness:
  "validate_filename (str ''report%2ejson'') \<and>
   \<not> sublist (str ''..'') (str ''report%2ejson'') \<and>
   \<not> sublist (str ''/'') (str ''report%2ejson'') \<and>
   \<not> sublist [92] (str ''report%2ejson'') \<and>
   0 \<notin> set (str ''report%2ejson'') \<and>
   \<not> prefix (str ''/'') (str ''report%2ejson'') \<and>
   \<not> prefix [92] (str ''report%2ejson'')"
  using validate_filename_raw_safe [OF accepts_encoded_dot] accepts_encoded_dot by blast

section \<open>The rate limiter's window\<close>

lemma check_rate_limit_admit:
  "length (filter (\<lambda>t. now - t < 60) (storage key)) < limit \<Longrightarrow>
   check_rate_limit limit now key storage =
     (True, storage(key := filter (\<lambda>t. now - t < 60) (storage key) @ [now]))"
  by (simp add: check_rate_limit_def Let_def)

lemma check_rate_limit_refuse:
  "\<not> length (filter (\<lambda>t. now - t < 60) (storage key)) < limit \<Longrightarrow>
   check_rate_limit limit now key storage =
     (False, storage(key := filter (\<lambda>t. now - t < 60) (storage key)))"
  by (simp add: check_rate_limit_def Let_def)

lemma four_calls_then_one:
  assumes fresh: "storage key = []"
    and near: "t0 \<le> t1" "t1 \<le> t0 + 1" "t0 \<le> t2" "t2 \<le> t0 + 1" "t0 \<le> t3" "t3 \<le> t0 + 1"
    and far: "t0 + 60 < t4"
  shows "check_rate_limit_calls 3 key [t0, t1, t2, t3, t4] storage = [True, True, True, False, True]"
proof -
  let ?s1 = "storage(key := [t0])"
  let ?s2 = "storage(key := [t0, t1])"
  let ?s3 = "storage(key := [t0, t1, t2])"
  have c1: "check_rate_limit 3 t0 key storage = (True, ?s1)"
    using fresh by (simp add: check_rate_limit_admit)
  have c2: "check_rate_limit 3 t1 key ?s1 = (True, ?s2)"
    using near by (simp add: check_rate_limit_admit)
  have c3: "check_rate_limit 3 t2 key ?s2 = (True, ?s3)"
    using near by (simp add: check_rate_limit_admit)
  have c4: "check_rate_limit 3 t3 key ?s3 = (False, ?s3)"
    using near by (simp add: check_rate_limit_refuse)
  have "length (filter (\<lambda>t. t4 - t < 60) [t0, t1, t2]) < 3"
    using far by simp
  then have c5: "fst (check_rate_limit 3 t4 key ?s3) = True"
    by (simp add: check_rate_limit_admit)
  show ?thesis
    using c1 c2 c3 c4 c5 by (simp add: split_beta)
qed

text \<open>
  Claim C5. A call of \<^verbatim>\<open>check_rate_limit\<close> for a key at time \<open>now\<close> leaves in that key's
  record no timestamp older than \<open>now - 60\<close>; it answers true exactly when the record
  pruned to the window (the timestamps \<open>t\<close> with \<open>now - t < 60\<close>) is shorter than the
  limit, and then the record is the pruned one followed by \<open>now\<close>; otherwise it answers
  false and the record is the pruned one, with nothing appended. With limit 3, four calls
  for a fresh key within one second answer true, true, true, false, and a call more than
  60 seconds after the first answers true again.
\<close>

theorem check_rate_limit_sliding_window:
  "(\<forall>t\<in>set (storage key). t < now - 60 \<longrightarrow>
       t \<notin> set (snd (check_rate_limit limit now key storage) key)) \<and>
   (fst (check_rate_limit limit now key storage) \<longleftrightarrow>
       length (filter (\<lambda>t. now - t < 60) (storage key)) < limit) \<and>
   snd (check_rate_limit limit now key storage) key =
     (if fst (check_rate_limit limit now key storage)
      then filter (\<lambda>t. now - t < 60) (storage key) @ [now]
      else filter (\<lambda>t. now - t < 60) (storage key)) \<and>
   (storage key = [] \<and> t0 \<le> t1 \<and> t1 \<le> t0 + 1 \<and> t0 \<le> t2 \<and> t2 \<le> t0 + 1 \<and>
    t0 \<le> t3 \<and> t3 \<le> t0 + 1 \<and> t0 + 60 < t4 \<longrightarrow>
    check_rate_limit_calls 3 key [t0, t1, t2, t3, t4] storage =
      [True, True, True, False, True])"
proof (cases "length (filter (\<lambda>t. now - t < 60) (storage key)) < limit")
  case True
  from check_rate_limit_admit [of now storage key limit] four_calls_then_one [of storage key t0 t1 t2 t3 t4]
  show ?thesis using True by auto
next
  case False
  from check_rate_limit_refuse [of now storage key limit] four_calls_then_one [of storage key t0 t1 t2 t3 t4]
  show ?thesis using False by auto
qed

theorem check_rate_limit_sliding_window_witness:
  "check_rate_limit_calls 3 (str ''10.0.0.7'') [0, 1 / 4, 1 / 2, 1, 61] (\<lambda>client. []) =
     [True, True, True, False, True] \<and>
   snd (check_rate_limit 3 100 (str ''10.0.0.7'') (\<lambda>client. [30, 70])) (str ''10.0.0.7'') =
     [70, 100]"
proof -
  have "check_rate_limit_calls 3 (str ''10.0.0.7'') [0, 1 / 4, 1 / 2, 1, 61] (\<lambda>client. []) =
     [True, True, True, False, True]"
    using check_rate_limit_sliding_window
      [of "\<lambda>client. []" "str ''10.0.0.7''" 0 3 0 "1 / 4" "1 / 2" 1 61]
    by simp
  moreover have
    "snd (check_rate_limit 3 100 (str ''10.0.0.7'') (\<lambda>client. [30, 70])) (str ''10.0.0.7'') =
       [70, 100]"
    using check_rate_limit_sliding_window [of "\<lambda>client. [30, 70]" "str ''10.0.0.7''" 100 3]
    by simp
  ultimately show ?thesis by simp
qed

section \<open>The lookup stays inside the storage root\<close>

lemma find_matching_file_inside:
  "find_matching_file fs workflows_path filename subdirs = Returned f \<Longrightarrow>
   \<exists>canonical. resolve fs f = Some canonical \<and> prefix workflows_path canonical"
proof (induction subdirs)
  case Nil
  then show ?case by simp
next
  case (Cons subdir rest)
  then show ?case
    by (auto simp: Let_def is_relative_to_def split: if_splits option.splits)
qed





lemmas planted_eval =
  get_workflow_detail_lookup_def download_workflow_lookup_def planted_link_def
  planted_only_def empty_root_def planted_resolve_def joinpath_def path_parts_def
  is_relative_to_def str_def Let_def

lemma planted_link_detail:
  "get_workflow_detail_lookup planted_link (str ''x.json'') =
     Returned [str ''srv'', str ''workflows'', str ''Slack'', str ''x.json'']"
  by (simp add: planted_eval)

lemma planted_link_download:
  "download_workflow_lookup planted_link (str ''x.json'') =
     Returned [str ''srv'', str ''workflows'', str ''Slack'', str ''x.json'']"
  by (simp add: planted_eval)

text \<open>
  Claim C1. For every filename and every state of the filesystem, a file that the lookup
  of \<^verbatim>\<open>get_workflow_detail\<close> or of \<^verbatim>\<open>download_workflow\<close> returns has a canonical path
  below the canonical storage root: the root's components are an initial segment of the
  components of the file's resolved path.
\<close>

theorem lookup_stays_inside_root:
  assumes "get_workflow_detail_lookup fs filename = Returned f \<or>
           download_workflow_lookup fs filename = Returned f"
  shows "\<exists>workflows_path canonical.
           resolve fs (cwd fs @ [str ''workflows'']) = Some workflows_path \<and>
           resolve fs f = Some canonical \<and> prefix workflows_path canonical"
  using assms
proof
  assume "get_workflow_detail_lookup fs filename = Returned f"
  then show ?thesis
    by (auto simp: get_workflow_detail_lookup_def split: option.splits
        dest: find_matching_file_inside)
next
  assume "download_workflow_lookup fs filename = Returned f"
  then show ?thesis
    by (auto simp: download_workflow_lookup_def is_relative_to_def
        split: option.splits list.splits if_splits)
qed

theorem lookup_stays_inside_root_witness:
  "get_workflow_detail_lookup planted_link (str ''x.json'') =
     Returned [str ''srv'', str ''workflows'', str ''Slack'', str ''x.json''] \<and>
   (\<exists>workflows_path canonical.
      resolve planted_link (cwd planted_link @ [str ''workflows'']) = Some workflows_path \<and>
      resolve planted_link [str ''srv'', str ''workflows'', str ''Slack'', str ''x.json''] =
        Some canonical \<and>
      prefix workflows_path canonical)"
  using lookup_stays_inside_root [of planted_link "str ''x.json''"
      "[str ''srv'', str ''workflows'', str ''Slack'', str ''x.json'']"]
    planted_link_detail
  by blast




section \<open>The classifier follows its table\<close>

lemma scan_service_mappings_find:
  "not_set primary \<or> is_one_of primary generic_labels \<Longrightarrow>
   scan_service_mappings ty nm table primary =
     (case find (\<lambda>(key, directory). sublist key ty \<or> sublist key nm) table of
        None \<Rightarrow> primary
      | Some (key, directory) \<Rightarrow> Some directory)"
proof (induction "table")
  case Nil
  show ?case by simp
next
  case (Cons entry rest)
  obtain key directory where entry: "entry = (key, directory)" by (cases entry)
  show ?case
  proof (cases "sublist key ty \<or> sublist key nm")
    case True
    with Cons.prems entry show ?thesis by simp
  next
    case False
    with Cons.IH [OF Cons.prems] entry show ?thesis by simp
  qed
qed

lemma find_Some_mem: "find P xs = Some x \<Longrightarrow> x \<in> set xs"
  by (induction xs) (auto split: if_splits)

lemma table_keys:
  "(str ''webhook'', str ''Webhook'') \<in> set service_mappings"
  "(str ''schedule'', str ''Schedule'') \<in> set service_mappings"
  "(str ''cron'', str ''Cron'') \<in> set service_mappings"
  by (simp_all add: service_mappings_def)

lemma table_label_None:
  assumes "table_label ty nm = None"
  shows "\<not> sublist (str ''webhook'') ty" "\<not> sublist (str ''webhook'') nm"
    "\<not> sublist (str ''cron'') ty" "\<not> sublist (str ''schedule'') ty"
proof -
  from assms have "\<forall>entry\<in>set service_mappings.
      \<not> (case entry of (key, directory) \<Rightarrow> sublist key ty \<or> sublist key nm)"
    by (auto simp: table_label_def find_None_iff)
  with table_keys show "\<not> sublist (str ''webhook'') ty" "\<not> sublist (str ''webhook'') nm"
    "\<not> sublist (str ''cron'') ty" "\<not> sublist (str ''schedule'') ty"
    by blast+
qed

lemma generic_members:
  "is_one_of (Some (str ''Webhook'')) generic_labels"
  "is_one_of (Some (str ''Schedule'')) generic_labels"
  "is_one_of (Some (str ''Manual'')) generic_labels"
  by (simp_all add: is_one_of_def generic_labels_def)

lemma classify_node_table:
  assumes "not_set primary \<or> is_one_of primary generic_labels"
  shows "classify_node lower node primary =
     (case table_label (lower (get_or [] (node_type node))) (lower (get_or [] (node_name node))) of
        None \<Rightarrow> primary
      | Some label \<Rightarrow> Some label)"
proof -
  let ?ty = "lower (get_or [] (node_type node))" and ?nm = "lower (get_or [] (node_name node))"
  define after_webhook where "after_webhook =
     (if (sublist (str ''webhook'') ?ty \<or> sublist (str ''webhook'') ?nm) \<and>
         (not_set primary \<or> primary = Some (str ''Manual''))
      then Some (str ''Webhook'') else primary)"
  define after_schedule where "after_schedule =
     (if (sublist (str ''cron'') ?ty \<or> sublist (str ''schedule'') ?ty) \<and>
         (not_set after_webhook \<or> after_webhook = Some (str ''Manual''))
      then Some (str ''Schedule'') else after_webhook)"
  have unfold: "classify_node lower node primary =
      scan_service_mappings ?ty ?nm service_mappings after_schedule"
    by (simp add: classify_node_def after_webhook_def after_schedule_def Let_def)
  have "not_set after_webhook \<or> is_one_of after_webhook generic_labels"
    using assms generic_members by (simp add: after_webhook_def)
  then have guard: "not_set after_schedule \<or> is_one_of after_schedule generic_labels"
    using generic_members by (simp add: after_schedule_def)
  show ?thesis
  proof (cases "table_label ?ty ?nm")
    case None
    from table_label_None [OF None] have "after_schedule = primary"
      by (simp add: after_schedule_def after_webhook_def)
    moreover from None
    have "find (\<lambda>(key, directory). sublist key ?ty \<or> sublist key ?nm) service_mappings = None"
      by (simp add: table_label_def)
    ultimately show ?thesis
      using None unfold scan_service_mappings_find [OF guard, of ?ty ?nm service_mappings]
      by simp
  next
    case (Some label)
    then obtain key where
      "find (\<lambda>(key, directory). sublist key ?ty \<or> sublist key ?nm) service_mappings =
         Some (key, label)"
      by (auto simp: table_label_def)
    with Some unfold scan_service_mappings_find [OF guard, of ?ty ?nm service_mappings]
    show ?thesis by simp
  qed
qed

lemma scan_nodes_table:
  "not_set primary \<or> is_one_of primary generic_labels \<Longrightarrow>
   scan_nodes lower nodes primary = table_scan lower nodes primary"
proof (induction nodes arbitrary: primary)
  case Nil
  show ?case by simp
next
  case (Cons node rest)
  let ?found = "classify_node lower node primary"
  note step = classify_node_table [OF Cons.prems, of lower node]
  show ?case
  proof (cases "\<not> not_set ?found \<and> \<not> is_one_of ?found generic_labels")
    case True
    with step show ?thesis by (simp add: Let_def)
  next
    case False
    then have "not_set ?found \<or> is_one_of ?found generic_labels" by blast
    from Cons.IH [OF this] False step show ?thesis by (auto simp: Let_def)
  qed
qed

lemma table_scan_no_match:
  "\<forall>node\<in>set nodes.
      table_label (lower (get_or [] (node_type node))) (lower (get_or [] (node_name node))) = None \<Longrightarrow>
   table_scan lower nodes best = best"
  by (induction nodes arbitrary: best) (simp_all add: Let_def)

lemma table_labels_specific:
  "\<forall>entry\<in>set service_mappings. snd entry \<noteq> [] \<and> snd entry \<noteq> str ''Manual''"
  by (simp add: service_mappings_def str_def)

lemma table_label_specific:
  assumes "table_label ty nm = Some label"
  shows "label \<noteq> [] \<and> label \<noteq> str ''Manual''"
proof -
  from assms obtain key where
    "find (\<lambda>(key, directory). sublist key ty \<or> sublist key nm) service_mappings =
       Some (key, label)"
    by (auto simp: table_label_def)
  then have "(key, label) \<in> set service_mappings"
    by (rule find_Some_mem)
  with table_labels_specific show ?thesis by fastforce
qed

lemma table_scan_keeps:
  "best \<noteq> None \<Longrightarrow> best \<noteq> Some [] \<Longrightarrow> best \<noteq> Some (str ''Manual'') \<Longrightarrow>
   table_scan lower nodes best \<noteq> None \<and> table_scan lower nodes best \<noteq> Some [] \<and>
   table_scan lower nodes best \<noteq> Some (str ''Manual'')"
proof (induction nodes arbitrary: best)
  case Nil
  then show ?case by simp
next
  case (Cons node rest)
  let ?l = "table_label (lower (get_or [] (node_type node))) (lower (get_or [] (node_name node)))"
  let ?best' = "case ?l of None \<Rightarrow> best | Some label \<Rightarrow> Some label"
  have "?best' \<noteq> None \<and> ?best' \<noteq> Some [] \<and> ?best' \<noteq> Some (str ''Manual'')"
    using Cons.prems table_label_specific [of _ _ ] by (cases ?l) auto
  with Cons.IH [of ?best'] show ?case by (simp add: Let_def)
qed

lemma table_scan_match:
  "\<exists>node\<in>set nodes.
      table_label (lower (get_or [] (node_type node))) (lower (get_or [] (node_name node))) \<noteq> None \<Longrightarrow>
   table_scan lower nodes None \<noteq> None \<and> table_scan lower nodes None \<noteq> Some [] \<and>
   table_scan lower nodes None \<noteq> Some (str ''Manual'')"
proof (induction nodes)
  case Nil
  then show ?case by simp
next
  case (Cons node rest)
  let ?l = "table_label (lower (get_or [] (node_type node))) (lower (get_or [] (node_name node)))"
  show ?case
  proof (cases ?l)
    case None
    with Cons show ?thesis by (simp add: Let_def not_set_def)
  next
    case (Some label)
    from table_label_specific [OF Some] have
      "Some label \<noteq> None" "Some label \<noteq> Some []" "Some label \<noteq> Some (str ''Manual'')"
      by simp_all
    from table_scan_keeps [OF this, of lower rest] Some table_label_specific [OF Some]
    show ?thesis by (simp add: Let_def)
  qed
qed

lemma split_on_nonempty: "split_on sep s \<noteq> []"
  by (induction s) (auto split: list.splits)

lemma hd_split_on: "hd (split_on sep s) = takeWhile (\<lambda>c. c \<noteq> sep) s"
proof (induction s)
  case Nil
  show ?case by simp
next
  case (Cons c cs)
  obtain part parts where "split_on sep cs = part # parts"
    using split_on_nonempty [of sep cs] by (cases "split_on sep cs") auto
  with Cons show ?case by simp
qed

lemmas classify_eval =
  determine_workflow_directory_def first_node_label_def classify_node_def
  service_mappings_def get_or_def not_set_def is_one_of_def generic_labels_def
  spec_proposal_def table_label_def spec_derived_label_def
  ascii_lower_def ascii_capitalize_def str_def Let_def sublist_Cons_right

text \<open>
  Claim C6, as stated, fails. A node of type \<^verbatim>\<open>n8n-nodes-base.cron\<close> is classified
  \<^verbatim>\<open>Cron\<close>, a specific label, where the claim has it propose \<^verbatim>\<open>Schedule\<close>; and a node of
  type \<^verbatim>\<open>n8n-nodes-base.webhook\<close> named \<^verbatim>\<open>Slack Webhook\<close> is classified \<^verbatim>\<open>Slack\<close>, where
  the claim gives the webhook test precedence over the table.
\<close>

theorem classify_precedence_counterexample:
  "scan_nodes ascii_lower
     [\<lparr>node_name = Some (str ''Cron''), node_type = Some (str ''n8n-nodes-base.cron'')\<rparr>] None =
     Some (str ''Cron'') \<and>
   spec_scan ascii_lower
     [\<lparr>node_name = Some (str ''Cron''), node_type = Some (str ''n8n-nodes-base.cron'')\<rparr>] None =
     Some (str ''Schedule'') \<and>
   scan_nodes ascii_lower
     [\<lparr>node_name = Some (str ''Slack Webhook''),
       node_type = Some (str ''n8n-nodes-base.webhook'')\<rparr>] None =
     Some (str ''Slack'') \<and>
   spec_scan ascii_lower
     [\<lparr>node_name = Some (str ''Slack Webhook''),
       node_type = Some (str ''n8n-nodes-base.webhook'')\<rparr>] None =
     Some (str ''Webhook'')"
  by (simp add: classify_eval)

text \<open>
  Claim C6, amended. The scan takes the nodes in declaration order. While \<open>best\<close> is unset
  or one of the generic placeholders \<^verbatim>\<open>Manual\<close>, \<^verbatim>\<open>Webhook\<close>, \<^verbatim>\<open>Schedule\<close>, a node sets
  it to the label of the first keyword of the ordered table that occurs in its lowercase
  type or name, and a node with no such keyword leaves it as it is: the table lists
  \<^verbatim>\<open>webhook\<close>, \<^verbatim>\<open>schedule\<close> and \<^verbatim>\<open>cron\<close> (with the label \<^verbatim>\<open>Cron\<close>) itself, so the separate
  webhook test and the cron and schedule test on the type never decide the outcome. The
  scan stops once \<open>best\<close> holds a label that is not generic.
\<close>

theorem classify_scan_follows_table:
  "(not_set best \<or> is_one_of best generic_labels \<longrightarrow>
      classify_node lower node best =
        (case table_label (lower (get_or [] (node_type node)))
                          (lower (get_or [] (node_name node))) of
           None \<Rightarrow> best
         | Some label \<Rightarrow> Some label)) \<and>
   scan_nodes lower nodes None = table_scan lower nodes None"
  using classify_node_table [of best lower node] scan_nodes_table [of None lower nodes]
  by (simp add: not_set_def)

theorem classify_scan_follows_table_witness:
  "classify_node ascii_lower
     \<lparr>node_name = Some (str ''Poll''), node_type = Some (str ''n8n-nodes-base.cron'')\<rparr>
     (Some (str ''Webhook'')) = Some (str ''Cron'') \<and>
   scan_nodes ascii_lower
     [\<lparr>node_name = Some (str ''Hook''), node_type = Some (str ''n8n-nodes-base.webhook'')\<rparr>,
      \<lparr>node_name = Some (str ''Post''), node_type = Some (str ''n8n-nodes-base.slack'')\<rparr>,
      \<lparr>node_name = Some (str ''Mail''), node_type = Some (str ''n8n-nodes-base.gmail'')\<rparr>] None =
     Some (str ''Slack'')"
proof -
  have g: "is_one_of (Some (str ''Webhook'')) generic_labels"
    by (rule generic_members)
  have a: "classify_node ascii_lower
     \<lparr>node_name = Some (str ''Poll''), node_type = Some (str ''n8n-nodes-base.cron'')\<rparr>
     (Some (str ''Webhook'')) = Some (str ''Cron'')"
    using classify_scan_follows_table [of "Some (str ''Webhook'')" ascii_lower
        "\<lparr>node_name = Some (str ''Poll''), node_type = Some (str ''n8n-nodes-base.cron'')\<rparr>"] g
    by (simp add: classify_eval)
  have b: "scan_nodes ascii_lower
     [\<lparr>node_name = Some (str ''Hook''), node_type = Some (str ''n8n-nodes-base.webhook'')\<rparr>,
      \<lparr>node_name = Some (str ''Post''), node_type = Some (str ''n8n-nodes-base.slack'')\<rparr>,
      \<lparr>node_name = Some (str ''Mail''), node_type = Some (str ''n8n-nodes-base.gmail'')\<rparr>] None =
     Some (str ''Slack'')"
    using classify_scan_follows_table [of None ascii_lower _
        "[\<lparr>node_name = Some (str ''Hook''), node_type = Some (str ''n8n-nodes-base.webhook'')\<rparr>,
          \<lparr>node_name = Some (str ''Post''), node_type = Some (str ''n8n-nodes-base.slack'')\<rparr>,
          \<lparr>node_name = Some (str ''Mail''), node_type = Some (str ''n8n-nodes-base.gmail'')\<rparr>]"]
    by (simp add: classify_eval)
  from a b show ?thesis by simp
qed

text \<open>
  Claim C7, as stated, fails. A first node of the non-empty type \<^verbatim>\<open>custom.fooBar\<close> gives
  \<^verbatim>\<open>Manual\<close>, not the derived label \<^verbatim>\<open>Custom\<close>; and \<^verbatim>\<open>n8n-nodes-base.itemLists\<close> gives
  \<^verbatim>\<open>Itemlists\<close>, since \<^verbatim>\<open>capitalize\<close> also puts the rest of the segment in lower case.
\<close>

theorem first_node_label_counterexample:
  "determine_workflow_directory ascii_lower ascii_capitalize
     [\<lparr>node_name = Some (str ''Begin''), node_type = Some (str ''custom.fooBar'')\<rparr>] =
     str ''Manual'' \<and>
   spec_derived_label (str ''custom.fooBar'') = str ''Custom'' \<and>
   determine_workflow_directory ascii_lower ascii_capitalize
     [\<lparr>node_name = Some (str ''Split''), node_type = Some (str ''n8n-nodes-base.itemLists'')\<rparr>] =
     str ''Itemlists'' \<and>
   spec_derived_label (str ''n8n-nodes-base.itemLists'') = str ''ItemLists''"
  by (simp add: classify_eval)

text \<open>
  Claim C7, amended. After the scan \<open>best\<close> is unset or \<^verbatim>\<open>Manual\<close> exactly when no node's
  lowercase type or name contains a table keyword. Then, for a workflow whose first node's
  type contains the vendor namespace \<^verbatim>\<open>n8n-nodes-base.\<close>, the result is that type with
  every occurrence of the namespace deleted, cut before its first dot and passed through
  \<^verbatim>\<open>capitalize\<close> (first character in upper case, the others in lower case); and the result
  is \<^verbatim>\<open>Manual\<close> whenever the first node's type does not contain the namespace, in
  particular when it is empty.
\<close>

theorem first_node_label_fallback:
  assumes "nodes = first # others"
  shows "((not_set (scan_nodes lower nodes None) \<or>
           scan_nodes lower nodes None = Some (str ''Manual'')) \<longleftrightarrow>
          (\<forall>node\<in>set nodes.
             table_label (lower (get_or [] (node_type node)))
                         (lower (get_or [] (node_name node))) = None)) \<and>
         ((\<forall>node\<in>set nodes.
             table_label (lower (get_or [] (node_type node)))
                         (lower (get_or [] (node_name node))) = None) \<longrightarrow>
          determine_workflow_directory lower capitalize nodes =
            (if sublist (str ''n8n-nodes-base.'') (get_or [] (node_type first))
             then capitalize
                    (takeWhile (\<lambda>c. c \<noteq> 46)
                       (str_replace (str ''n8n-nodes-base.'') [] (get_or [] (node_type first))))
             else str ''Manual''))"
proof -
  let ?none = "\<forall>node\<in>set nodes.
      table_label (lower (get_or [] (node_type node))) (lower (get_or [] (node_name node))) = None"
  have scan: "scan_nodes lower nodes None = table_scan lower nodes None"
    by (rule scan_nodes_table) (simp add: not_set_def)
  have none: "scan_nodes lower nodes None = None" if ?none
    using table_scan_no_match [OF that, of None] scan by simp
  have some: "\<not> (not_set (scan_nodes lower nodes None) \<or>
                scan_nodes lower nodes None = Some (str ''Manual''))" if "\<not> ?none"
    using table_scan_match [of nodes lower] that scan by (auto simp: not_set_def)
  have iff: "(not_set (scan_nodes lower nodes None) \<or>
              scan_nodes lower nodes None = Some (str ''Manual'')) \<longleftrightarrow> ?none"
  proof
    assume "not_set (scan_nodes lower nodes None) \<or>
            scan_nodes lower nodes None = Some (str ''Manual'')"
    with some show ?none by blast
  next
    assume ?none
    from none [OF this] show "not_set (scan_nodes lower nodes None) \<or>
            scan_nodes lower nodes None = Some (str ''Manual'')"
      by (simp add: not_set_def)
  qed
  have label: "first_node_label capitalize nodes =
      (if sublist (str ''n8n-nodes-base.'') (get_or [] (node_type first))
       then capitalize
              (takeWhile (\<lambda>c. c \<noteq> 46)
                 (str_replace (str ''n8n-nodes-base.'') [] (get_or [] (node_type first))))
       else str ''Manual'')"
    unfolding assms by (simp add: first_node_label_def Let_def hd_split_on)
  have "determine_workflow_directory lower capitalize nodes = first_node_label capitalize nodes"
    if ?none
    using none [OF that] assms by (simp add: determine_workflow_directory_def)
  with label have "?none \<longrightarrow> determine_workflow_directory lower capitalize nodes =
      (if sublist (str ''n8n-nodes-base.'') (get_or [] (node_type first))
       then capitalize
              (takeWhile (\<lambda>c. c \<noteq> 46)
                 (str_replace (str ''n8n-nodes-base.'') [] (get_or [] (node_type first))))
       else str ''Manual'')"
    by simp
  with iff show ?thesis by (rule conjI)
qed

theorem first_node_label_fallback_witness:
  "determine_workflow_directory ascii_lower ascii_capitalize
     [\<lparr>node_name = Some (str ''Split''), node_type = Some (str ''n8n-nodes-base.itemLists'')\<rparr>,
      \<lparr>node_name = Some (str ''Done''), node_type = Some (str ''n8n-nodes-base.noOp'')\<rparr>] =
     ascii_capitalize (str ''itemLists'') \<and>
   determine_workflow_directory ascii_lower ascii_capitalize
     [\<lparr>node_name = Some (str ''Begin''), node_type = None\<rparr>] = str ''Manual''"
proof -
  have a: "determine_workflow_directory ascii_lower ascii_capitalize
     [\<lparr>node_name = Some (str ''Split''), node_type = Some (str ''n8n-nodes-base.itemLists'')\<rparr>,
      \<lparr>node_name = Some (str ''Done''), node_type = Some (str ''n8n-nodes-base.noOp'')\<rparr>] =
     ascii_capitalize (str ''itemLists'')"
    using first_node_label_fallback [of _ _ "[\<lparr>node_name = Some (str ''Done''),
        node_type = Some (str ''n8n-nodes-base.noOp'')\<rparr>]" ascii_lower ascii_capitalize, OF refl]
    by (simp add: classify_eval)
  have b: "determine_workflow_directory ascii_lower ascii_capitalize
     [\<lparr>node_name = Some (str ''Begin''), node_type = None\<rparr>] = str ''Manual''"
    using first_node_label_fallback [of _ _ "[]" ascii_lower ascii_capitalize, OF refl]
    by (simp add: classify_eval)
  from a b show ?thesis by simp
qed

section \<open>The diagram of a workflow without nodes\<close>

text \<open>
  Claim C8, as stated, fails: the text returned for the empty node sequence holds a line
  feed, so it is two lines, not one.
\<close>

theorem empty_diagram_counterexample:
  "map_option (length \<circ> split_on 10) (generate_mermaid_diagram ascii_lower [] []) = Some 2"
  by (simp add: generate_mermaid_diagram_def str_def)

text \<open>
  Claim C8, amended. For the empty node sequence \<^verbatim>\<open>generate_mermaid_diagram\<close> returns,
  regardless of the connections argument, the fixed placeholder text of two lines: the
  header \<^verbatim>\<open>graph TD\<close> and the node line \<^verbatim>\<open>  EmptyWorkflow[No nodes found in workflow]\<close>.
\<close>

theorem empty_diagram_placeholder:
  "generate_mermaid_diagram lower [] connections =
     Some (join_lines [str ''graph TD'', str ''  EmptyWorkflow[No nodes found in workflow]'']) \<and>
   split_on 10 (join_lines [str ''graph TD'', str ''  EmptyWorkflow[No nodes found in workflow]'']) =
     [str ''graph TD'', str ''  EmptyWorkflow[No nodes found in workflow]'']"
  by (simp add: generate_mermaid_diagram_def str_def)

theorem empty_diagram_placeholder_witness:
  "generate_mermaid_diagram ascii_lower []
     [(str ''A'', Main [Targets [Connection (Some (str ''B''))]])] =
     Some (str ''graph TD'' @ [10] @ str ''  EmptyWorkflow[No nodes found in workflow]'')"
  using empty_diagram_placeholder
    [of ascii_lower "[(str ''A'', Main [Targets [Connection (Some (str ''B''))]])]"]
  by simp

end
